theory Spec2Isabelle
  imports Main "HOL-Library.Word"
begin

unbundle bit_operations_syntax

section \<open>Machine integers and byte buffers\<close>

type_synonym u8 = "8 word"
type_synonym u16 = "16 word"

section \<open>CRC-16 of KMM frames (kfd\_protocol.cpp, namespace P25)\<close>

text \<open>The 256-entry table \<open>crc16Table\<close>, copied entry by entry from the source.\<close>

definition crc16Table :: "u16 list" where
  "crc16Table =
    [
     0x0000, 0x1189, 0x2312, 0x329B, 0x4624, 0x57AD, 0x6536, 0x74BF,
     0x8C48, 0x9DC1, 0xAF5A, 0xBED3, 0xCA6C, 0xDBE5, 0xE97E, 0xF8F7,
     0x1081, 0x0108, 0x3393, 0x221A, 0x56A5, 0x472C, 0x75B7, 0x643E,
     0x9CC9, 0x8D40, 0xBFDB, 0xAE52, 0xDAED, 0xCB64, 0xF9FF, 0xE876,
     0x2102, 0x308B, 0x0210, 0x1399, 0x6726, 0x76AF, 0x4434, 0x55BD,
     0xAD4A, 0xBCC3, 0x8E58, 0x9FD1, 0xEB6E, 0xFAE7, 0xC87C, 0xD9F5,
     0x3183, 0x200A, 0x1291, 0x0318, 0x77A7, 0x662E, 0x54B5, 0x453C,
     0xBDCB, 0xAC42, 0x9ED9, 0x8F50, 0xFBEF, 0xEA66, 0xD8FD, 0xC974,
     0x4204, 0x538D, 0x6116, 0x709F, 0x0420, 0x15A9, 0x2732, 0x36BB,
     0xCE4C, 0xDFC5, 0xED5E, 0xFCD7, 0x8868, 0x99E1, 0xAB7A, 0xBAF3,
     0x5285, 0x430C, 0x7197, 0x601E, 0x14A1, 0x0528, 0x37B3, 0x263A,
     0xDECD, 0xCF44, 0xFDDF, 0xEC56, 0x98E9, 0x8960, 0xBBFB, 0xAA72,
     0x6306, 0x728F, 0x4014, 0x519D, 0x2522, 0x34AB, 0x0630, 0x17B9,
     0xEF4E, 0xFEC7, 0xCC5C, 0xDDD5, 0xA96A, 0xB8E3, 0x8A78, 0x9BF1,
     0x7387, 0x620E, 0x5095, 0x411C, 0x35A3, 0x242A, 0x16B1, 0x0738,
     0xFFCF, 0xEE46, 0xDCDD, 0xCD54, 0xB9EB, 0xA862, 0x9AF9, 0x8B70,
     0x8408, 0x9581, 0xA71A, 0xB693, 0xC22C, 0xD3A5, 0xE13E, 0xF0B7,
     0x0840, 0x19C9, 0x2B52, 0x3ADB, 0x4E64, 0x5FED, 0x6D76, 0x7CFF,
     0x9489, 0x8500, 0xB79B, 0xA612, 0xD2AD, 0xC324, 0xF1BF, 0xE036,
     0x18C1, 0x0948, 0x3BD3, 0x2A5A, 0x5EE5, 0x4F6C, 0x7DF7, 0x6C7E,
     0xA50A, 0xB483, 0x8618, 0x9791, 0xE32E, 0xF2A7, 0xC03C, 0xD1B5,
     0x2942, 0x38CB, 0x0A50, 0x1BD9, 0x6F66, 0x7EEF, 0x4C74, 0x5DFD,
     0xB58B, 0xA402, 0x9699, 0x8710, 0xF3AF, 0xE226, 0xD0BD, 0xC134,
     0x39C3, 0x284A, 0x1AD1, 0x0B58, 0x7FE7, 0x6E6E, 0x5CF5, 0x4D7C,
     0xC60C, 0xD785, 0xE51E, 0xF497, 0x8028, 0x91A1, 0xA33A, 0xB2B3,
     0x4A44, 0x5BCD, 0x6956, 0x78DF, 0x0C60, 0x1DE9, 0x2F72, 0x3EFB,
     0xD68D, 0xC704, 0xF59F, 0xE416, 0x90A9, 0x8120, 0xB3BB, 0xA232,
     0x5AC5, 0x4B4C, 0x79D7, 0x685E, 0x1CE1, 0x0D68, 0x3FF3, 0x2E7A,
     0xE70E, 0xF687, 0xC41C, 0xD595, 0xA12A, 0xB0A3, 0x8238, 0x93B1,
     0x6B46, 0x7ACF, 0x4854, 0x59DD, 0x2D62, 0x3CEB, 0x0E70, 0x1FF9,
     0xF78F, 0xE606, 0xD49D, 0xC514, 0xB1AB, 0xA022, 0x92B9, 0x8330,
     0x7BC7, 0x6A4E, 0x58D5, 0x495C, 0x3DE3, 0x2C6A, 0x1EF1, 0x0F78
    ]"

text \<open>
  One round of the loop body of \<open>calculateCrc16\<close>:
  \<open>crc = (uint16_t)(crc16Table[data[i] ^ (crc & 0xFF)] ^ (crc >> 8))\<close>.
  The index is below 256, so the table read is always in range.
\<close>

definition crc16_step :: "u16 \<Rightarrow> u8 \<Rightarrow> u16" where
  "crc16_step crc b = (crc16Table ! unat ((ucast b :: u16) XOR (crc AND 0xFF))) XOR drop_bit 8 crc"

text \<open>The \<open>for\<close> loop over the buffer, the running value passed along.\<close>

fun crc16_loop :: "u8 list \<Rightarrow> u16 \<Rightarrow> u16" where
  "crc16_loop [] crc = crc"
| "crc16_loop (b # bs) crc = crc16_loop bs (crc16_step crc b)"

definition calculateCrc16 :: "u8 list \<Rightarrow> u16" where
  "calculateCrc16 data = crc16_loop data 0xFFFF"

section \<open>Protocol constants (p25\_defs.h)\<close>

text \<open>The enumerators of \<open>MessageId\<close>, \<open>OperationStatus\<close>, \<open>TwiOpcode\<close> and
  \<open>AlgorithmId\<close> that the protocol layer uses, with the values of the header.\<close>

definition MSG_INVENTORY_CMD :: u8 where "MSG_INVENTORY_CMD = 0x00"
definition MSG_MODIFY_KEY_CMD :: u8 where "MSG_MODIFY_KEY_CMD = 0x04"
definition MSG_REKEY_ACK :: u8 where "MSG_REKEY_ACK = 0x07"
definition MSG_NEGATIVE_ACK :: u8 where "MSG_NEGATIVE_ACK = 0x08"
definition MSG_ZEROIZE_CMD :: u8 where "MSG_ZEROIZE_CMD = 0x0A"

definition STATUS_COMMAND_PERFORMED :: u8 where "STATUS_COMMAND_PERFORMED = 0x00"
definition STATUS_INVALID_MN :: u8 where "STATUS_INVALID_MN = 0x0A"
definition STATUS_INTERNAL_ERROR :: u8 where "STATUS_INTERNAL_ERROR = 0xFF"

definition TWI_READY_REQ :: u8 where "TWI_READY_REQ = 0xC0"
definition TWI_READY_MODE_MR :: u8 where "TWI_READY_MODE_MR = 0xD0"
definition TWI_READY_MODE_KVL :: u8 where "TWI_READY_MODE_KVL = 0xD1"
definition TWI_TRANSFER_DONE :: u8 where "TWI_TRANSFER_DONE = 0xC1"
definition TWI_KMM :: u8 where "TWI_KMM = 0xC2"
definition TWI_DISCONNECT :: u8 where "TWI_DISCONNECT = 0x92"

definition ALGO_DES_OFB :: u8 where "ALGO_DES_OFB = 0x81"
definition ALGO_2_KEY_3DES :: u8 where "ALGO_2_KEY_3DES = 0x82"
definition ALGO_3_KEY_3DES :: u8 where "ALGO_3_KEY_3DES = 0x83"
definition ALGO_AES_256 :: u8 where "ALGO_AES_256 = 0x84"
definition ALGO_AES_128 :: u8 where "ALGO_AES_128 = 0x85"
definition ALGO_AES_CBC :: u8 where "ALGO_AES_CBC = 0x86"
definition ALGO_ARC4 :: u8 where "ALGO_ARC4 = 0x9F"
definition ALGO_ADP :: u8 where "ALGO_ADP = 0xAA"

lemmas p25_consts =
  MSG_INVENTORY_CMD_def MSG_MODIFY_KEY_CMD_def MSG_REKEY_ACK_def MSG_NEGATIVE_ACK_def
  MSG_ZEROIZE_CMD_def STATUS_COMMAND_PERFORMED_def STATUS_INVALID_MN_def
  STATUS_INTERNAL_ERROR_def TWI_READY_REQ_def TWI_READY_MODE_MR_def TWI_READY_MODE_KVL_def
  TWI_TRANSFER_DONE_def TWI_KMM_def TWI_DISCONNECT_def
  ALGO_DES_OFB_def ALGO_2_KEY_3DES_def ALGO_3_KEY_3DES_def ALGO_AES_256_def ALGO_AES_128_def
  ALGO_AES_CBC_def ALGO_ARC4_def ALGO_ADP_def

text \<open>\<open>getKeyLength\<close>: the \<open>switch\<close> of the header, the default branch last.\<close>

definition getKeyLength :: "u8 \<Rightarrow> nat" where
  "getKeyLength algo =
     (if algo = ALGO_DES_OFB then 8
      else if algo = ALGO_2_KEY_3DES then 16
      else if algo = ALGO_3_KEY_3DES then 24
      else if algo = ALGO_AES_128 then 16
      else if algo = ALGO_AES_256 then 32
      else if algo = ALGO_AES_CBC then 32
      else if algo = ALGO_ARC4 then 13
      else if algo = ALGO_ADP then 5
      else 0)"

text \<open>\<open>P25::validateKey\<close>: an expected length of 0 accepts every key.\<close>

definition validateKey :: "u8 list \<Rightarrow> u8 \<Rightarrow> bool" where
  "validateKey key algo = (let expected = getKeyLength algo in expected = 0 \<or> length key = expected)"

text \<open>\<open>struct KeyItem\<close>.\<close>

record KeyItem =
  keysetId :: u16
  sln :: u16
  keyId :: u16
  algorithmId :: u8
  key :: "u8 list"
  isKek :: bool
  erase :: bool

section \<open>The byte codec (twi\_hal.cpp)\<close>

text \<open>The state of the DATA wire during one bit period: driven low by \<open>kfdTxBusy\<close>,
  released high by \<open>kfdTxIdle\<close>.\<close>

datatype line_level = Busy | Idle

text \<open>The 256-entry table of \<open>TWI_HAL::reverseBits\<close>, copied from the source.\<close>

definition reverseBits_table :: "u8 list" where
  "reverseBits_table =
    [
     0x00, 0x80, 0x40, 0xC0, 0x20, 0xA0, 0x60, 0xE0, 0x10, 0x90, 0x50, 0xD0, 0x30, 0xB0, 0x70, 0xF0,
     0x08, 0x88, 0x48, 0xC8, 0x28, 0xA8, 0x68, 0xE8, 0x18, 0x98, 0x58, 0xD8, 0x38, 0xB8, 0x78, 0xF8,
     0x04, 0x84, 0x44, 0xC4, 0x24, 0xA4, 0x64, 0xE4, 0x14, 0x94, 0x54, 0xD4, 0x34, 0xB4, 0x74, 0xF4,
     0x0C, 0x8C, 0x4C, 0xCC, 0x2C, 0xAC, 0x6C, 0xEC, 0x1C, 0x9C, 0x5C, 0xDC, 0x3C, 0xBC, 0x7C, 0xFC,
     0x02, 0x82, 0x42, 0xC2, 0x22, 0xA2, 0x62, 0xE2, 0x12, 0x92, 0x52, 0xD2, 0x32, 0xB2, 0x72, 0xF2,
     0x0A, 0x8A, 0x4A, 0xCA, 0x2A, 0xAA, 0x6A, 0xEA, 0x1A, 0x9A, 0x5A, 0xDA, 0x3A, 0xBA, 0x7A, 0xFA,
     0x06, 0x86, 0x46, 0xC6, 0x26, 0xA6, 0x66, 0xE6, 0x16, 0x96, 0x56, 0xD6, 0x36, 0xB6, 0x76, 0xF6,
     0x0E, 0x8E, 0x4E, 0xCE, 0x2E, 0xAE, 0x6E, 0xEE, 0x1E, 0x9E, 0x5E, 0xDE, 0x3E, 0xBE, 0x7E, 0xFE,
     0x01, 0x81, 0x41, 0xC1, 0x21, 0xA1, 0x61, 0xE1, 0x11, 0x91, 0x51, 0xD1, 0x31, 0xB1, 0x71, 0xF1,
     0x09, 0x89, 0x49, 0xC9, 0x29, 0xA9, 0x69, 0xE9, 0x19, 0x99, 0x59, 0xD9, 0x39, 0xB9, 0x79, 0xF9,
     0x05, 0x85, 0x45, 0xC5, 0x25, 0xA5, 0x65, 0xE5, 0x15, 0x95, 0x55, 0xD5, 0x35, 0xB5, 0x75, 0xF5,
     0x0D, 0x8D, 0x4D, 0xCD, 0x2D, 0xAD, 0x6D, 0xED, 0x1D, 0x9D, 0x5D, 0xDD, 0x3D, 0xBD, 0x7D, 0xFD,
     0x03, 0x83, 0x43, 0xC3, 0x23, 0xA3, 0x63, 0xE3, 0x13, 0x93, 0x53, 0xD3, 0x33, 0xB3, 0x73, 0xF3,
     0x0B, 0x8B, 0x4B, 0xCB, 0x2B, 0xAB, 0x6B, 0xEB, 0x1B, 0x9B, 0x5B, 0xDB, 0x3B, 0xBB, 0x7B, 0xFB,
     0x07, 0x87, 0x47, 0xC7, 0x27, 0xA7, 0x67, 0xE7, 0x17, 0x97, 0x57, 0xD7, 0x37, 0xB7, 0x77, 0xF7,
     0x0F, 0x8F, 0x4F, 0xCF, 0x2F, 0xAF, 0x6F, 0xEF, 0x1F, 0x9F, 0x5F, 0xDF, 0x3F, 0xBF, 0x7F, 0xFF
    ]"

definition reverseBits :: "u8 \<Rightarrow> u8" where
  "reverseBits byte = reverseBits_table ! unat byte"

text \<open>\<open>TWI_HAL::isEvenParity\<close>: the loop counts the bits \<open>i = 0 .. 7\<close> with
  \<open>byte & (1 << i)\<close> non-zero, and the result is \<open>(ones % 2) == 0\<close>.\<close>

definition isEvenParity :: "u8 \<Rightarrow> bool" where
  "isEvenParity byte =
     (let ones = fold (\<lambda>i ones. if byte AND push_bit i 1 \<noteq> 0 then ones + 1 else ones) [0..<8] (0::nat)
      in ones mod 2 = 0)"

text \<open>The 16-bit shift register that \<open>sendByte\<close> (and, with the same statements,
  \<open>sendBytesFast\<close>) builds before it touches the wire: the reversed byte, bit 8 set
  when \<open>needParity = !isEvenParity(byte)\<close>, all shifted left by one so that bit 0
  is the start bit.\<close>

definition sendByte_frame :: "u8 \<Rightarrow> u16" where
  "sendByte_frame byte =
     (let reversed = reverseBits byte;
          frame = (ucast reversed :: u16);
          needParity = (\<not> isEvenParity byte);
          frame = (if needParity then frame OR 0x100 else frame)
      in push_bit 1 frame)"

text \<open>The loop that sends the bits, least significant first: a set bit releases the
  wire (\<open>Idle\<close>), a clear bit drives it (\<open>Busy\<close>); one list entry per bit period.\<close>

fun shift_out :: "nat \<Rightarrow> u16 \<Rightarrow> line_level list" where
  "shift_out 0 frame = []"
| "shift_out (Suc n) frame =
     (if frame AND 0x01 \<noteq> 0 then Idle else Busy) # shift_out n (drop_bit 1 frame)"

text \<open>What \<open>sendByte\<close> puts on the wire, one entry per bit period: the ten frame
  bits, four stop bits in the configured polarity, and the two idle periods of the
  inter-byte gap.\<close>

definition sendByte_wire :: "bool \<Rightarrow> u8 \<Rightarrow> line_level list" where
  "sendByte_wire useBusyStopBits byte =
     shift_out 10 (sendByte_frame byte)
     @ (if useBusyStopBits then replicate 4 Busy else replicate 4 Idle)
     @ replicate 2 Idle"

text \<open>The parity bit as transmitted: the tenth bit period of the frame, read as 1 when
  the wire is released and 0 when it is driven, the way the data bits are.\<close>

definition parity_bit :: "u8 \<Rightarrow> nat" where
  "parity_bit byte = (if sendByte_wire True byte ! 9 = Idle then 1 else 0)"

text \<open>The number of set bits of a byte.\<close>

definition popcount :: "u8 \<Rightarrow> nat" where
  "popcount byte = length (filter (bit byte) [0..<8])"

section \<open>The KMM framer (kfd\_protocol.cpp)\<close>

text \<open>\<open>buildModifyKeyCommand(const KeyItem&)\<close>: the body of a ModifyKey command
  with one key. \<open>key.key.size() & 0xFF\<close> keeps the low byte of the size.\<close>

definition buildModifyKeyCommand :: "KeyItem \<Rightarrow> u8 list" where
  "buildModifyKeyCommand k =
     [0x00, 0x00, 0x80, 0x00, 0x00,
      ucast (keysetId k AND 0xFF),
      algorithmId k,
      of_nat (length (key k) mod 256),
      0x01,
      (if erase k then 0x20 else 0x00),
      ucast (drop_bit 8 (sln k) AND 0xFF), ucast (sln k AND 0xFF),
      ucast (drop_bit 8 (keyId k) AND 0xFF), ucast (keyId k AND 0xFF)]
     @ key k"

text \<open>\<open>buildZeroizeCommand\<close> returns the one-byte vector \<open>{ MSG_ZEROIZE_CMD }\<close>.\<close>

definition buildZeroizeCommand :: "u8 list" where
  "buildZeroizeCommand = [MSG_ZEROIZE_CMD]"

text \<open>The local constant \<open>usePreamble\<close> of \<open>buildKmmFrame\<close>.\<close>

definition usePreamble :: bool where
  "usePreamble = False"

text \<open>
  \<open>buildKmmFrame(kmmBody, messageId, responseKind)\<close>. The two length fields are
  written as \<open>(n >> 8) & 0xFF\<close> and \<open>n & 0xFF\<close> of an \<open>int\<close>: bits 8 to 15 and
  bits 0 to 7 of the sum, whatever its size. The CRC goes out low byte first.
\<close>

definition buildKmmFrame :: "u8 list \<Rightarrow> u8 \<Rightarrow> u8 \<Rightarrow> u8 list" where
  "buildKmmFrame kmmBody messageId responseKind =
     (let messageLength = 7 + length kmmBody;
          kmmFrame = [messageId,
                      of_nat (messageLength div 256 mod 256), of_nat (messageLength mod 256),
                      responseKind,
                      0xFF, 0xFF, 0xFF,
                      0xFF, 0xFF, 0xFF] @ kmmBody;
          preamble = [0x00, 0x00, 0x80, 0x00, 0x00] @ replicate 9 0x00;
          fullKmm = (if usePreamble then preamble @ kmmFrame else kmmFrame);
          twiBody = [0x00, 0xFF, 0xFF, 0xFF] @ fullKmm;
          crc = calculateCrc16 twiBody;
          len = length twiBody + 2
      in [TWI_KMM, of_nat (len div 256 mod 256), of_nat (len mod 256)]
         @ twiBody
         @ [ucast (crc AND 0xFF), ucast (drop_bit 8 crc AND 0xFF)])"

text \<open>The one-argument overload, commented in the source as the convenience wrapper
  for ModifyKeyCommand: message id \<open>MSG_MODIFY_KEY_CMD\<close>, response kind \<open>0xC0\<close>.\<close>

definition buildKmmFrame_wrapper :: "u8 list \<Rightarrow> u8 list" where
  "buildKmmFrame_wrapper kmmBody = buildKmmFrame kmmBody MSG_MODIFY_KEY_CMD 0xC0"

text \<open>Reading a two-byte field of a frame: high byte first (the length fields) and low
  byte first (the CRC).\<close>

definition be16 :: "u8 \<Rightarrow> u8 \<Rightarrow> nat" where
  "be16 hi lo = unat hi * 256 + unat lo"

definition le16 :: "u8 \<Rightarrow> u8 \<Rightarrow> u16" where
  "le16 lo hi = push_bit 8 (ucast hi) OR ucast lo"

section \<open>The line as the protocol layer sees it (TWI\_HAL)\<close>

text \<open>
  The protocol layer talks to the radio only through \<open>TWI_HAL\<close>. The peer is a script:
  the outcome of each successive \<open>receiveByte\<close> call, \<open>Some b\<close> for a byte that
  arrived within the timeout and \<open>None\<close> for a timeout; an exhausted script is a silent
  peer. Every call that touches the wire or waits is appended to a log, with the timeout or
  the delay it was called with; an entry for a HAL call stands for the whole call, the waits
  inside it included. \<open>LineWatch n\<close> is a loop of the protocol layer that polls
  \<open>isLineBusy\<close> for at most \<open>n\<close> ms and reads no byte. Debug printing on the serial
  console is left out.
\<close>

datatype wire_event =
    KeySignature
  | TxByte u8
  | TxBytesFast "u8 list"
  | RxByte nat "u8 option"
  | LineWatch nat
  | DelayMs nat
  | DelayUs nat

record hal_state =
  hal_initialized :: bool
  rx_script :: "u8 option list"
  wire_log :: "wire_event list"

definition sendByte :: "hal_state \<Rightarrow> u8 \<Rightarrow> hal_state" where
  "sendByte h byte =
     (if \<not> hal_initialized h then h else h\<lparr>wire_log := wire_log h @ [TxByte byte]\<rparr>)"

definition sendBytesFast :: "hal_state \<Rightarrow> u8 list \<Rightarrow> hal_state" where
  "sendBytesFast h data =
     (if \<not> hal_initialized h \<or> data = [] then h
      else h\<lparr>wire_log := wire_log h @ [TxBytesFast data]\<rparr>)"

text \<open>\<open>sendKeySignatureAndReadyReq\<close>: 100 ms busy, 5 ms idle, then \<open>sendByte(0xC0)\<close>.\<close>

definition sendKeySignatureAndReadyReq :: "hal_state \<Rightarrow> hal_state" where
  "sendKeySignatureAndReadyReq h =
     (if \<not> hal_initialized h then h
      else sendByte (h\<lparr>wire_log := wire_log h @ [KeySignature]\<rparr>) 0xC0)"

text \<open>\<open>receiveByte(&byte, timeoutMs)\<close>: every caller in the protocol layer passes a
  positive timeout, so the wait for the start bit is bounded.\<close>

definition receiveByte :: "hal_state \<Rightarrow> nat \<Rightarrow> u8 option \<times> hal_state" where
  "receiveByte h timeoutMs =
     (if \<not> hal_initialized h then (None, h)
      else case rx_script h of
             [] \<Rightarrow> (None, h\<lparr>wire_log := wire_log h @ [RxByte timeoutMs None]\<rparr>)
           | r # rs \<Rightarrow> (r, h\<lparr>rx_script := rs, wire_log := wire_log h @ [RxByte timeoutMs r]\<rparr>))"

section \<open>The protocol layer (class KFDProtocol)\<close>

datatype DeviceType = DEVICE_NONE | DEVICE_MR | DEVICE_KVL

text \<open>\<open>struct Result\<close> with its two-argument constructor.\<close>

record Result =
  success :: bool
  message :: string
  status :: u8

definition mkResult :: "bool \<Rightarrow> string \<Rightarrow> Result" where
  "mkResult ok msg =
     \<lparr>success = ok, message = msg,
      status = (if ok then STATUS_COMMAND_PERFORMED else STATUS_INTERNAL_ERROR)\<rparr>"

text \<open>
  The members of \<open>KFDProtocol\<close> that its operations read or write. \<open>init\<close> stores the
  HAL pointer and sets \<open>_initialized\<close> in the same call and nothing resets either, so the
  tests \<open>!_hal\<close> of the source are read as \<open>\<not> initialized\<close>.
\<close>

record kfd_state =
  initialized :: bool
  debug :: bool
  operationInProgress :: bool
  abortRequested :: bool
  postReadyDelayUs :: nat
  hal :: hal_state

definition delay_ms :: "nat \<Rightarrow> kfd_state \<Rightarrow> kfd_state" where
  "delay_ms n st = st\<lparr>hal := (hal st)\<lparr>wire_log := wire_log (hal st) @ [DelayMs n]\<rparr>\<rparr>"

text \<open>The statement \<open>if (_postReadyDelayUs > 0) delayMicroseconds(_postReadyDelayUs)\<close>.\<close>

definition post_ready_delay :: "kfd_state \<Rightarrow> kfd_state" where
  "post_ready_delay st =
     (if postReadyDelayUs st > 0
      then st\<lparr>hal := (hal st)\<lparr>wire_log := wire_log (hal st) @ [DelayUs (postReadyDelayUs st)]\<rparr>\<rparr>
      else st)"

text \<open>
  The loop \<open>for (attempt = 1; attempt <= 3; attempt++)\<close> of \<open>beginSession\<close>. The
  second component is the value written through \<open>deviceType\<close>, \<open>None\<close> when nothing
  is written.
\<close>

function beginSession_loop :: "nat \<Rightarrow> kfd_state \<Rightarrow> bool \<times> DeviceType option \<times> kfd_state" where
  "beginSession_loop attempt st =
     (if attempt \<le> 3 then
        (case receiveByte (sendKeySignatureAndReadyReq (hal st)) 2000 of
           (Some response, h) \<Rightarrow>
             if response = TWI_READY_MODE_MR
               then (True, Some DEVICE_MR, post_ready_delay (st\<lparr>hal := h\<rparr>))
             else if response = TWI_READY_MODE_KVL
               then (True, Some DEVICE_KVL, post_ready_delay (st\<lparr>hal := h\<rparr>))
             else beginSession_loop (attempt + 1) (delay_ms 500 (st\<lparr>hal := h\<rparr>))
         | (None, h) \<Rightarrow> beginSession_loop (attempt + 1) (delay_ms 500 (st\<lparr>hal := h\<rparr>)))
      else (False, None, st))"
  by pat_completeness auto
termination
  by (relation "measure (\<lambda>(attempt, st). 4 - attempt)") auto

definition beginSession :: "kfd_state \<Rightarrow> bool \<times> DeviceType option \<times> kfd_state" where
  "beginSession st = (if \<not> initialized st then (False, None, st) else beginSession_loop 1 st)"

text \<open>\<open>endSession\<close>: transfer-done, and disconnect when the peer echoes it;
  \<open>disableInterface\<close> leaves the wire as it is.\<close>

definition endSession :: "kfd_state \<Rightarrow> kfd_state" where
  "endSession st =
     (if \<not> initialized st then st
      else case receiveByte (sendByte (hal st) TWI_TRANSFER_DONE) 1000 of
             (Some response, h) \<Rightarrow>
               if response = TWI_TRANSFER_DONE
                 then st\<lparr>hal := snd (receiveByte (sendByte h TWI_DISCONNECT) 1000)\<rparr>
               else st\<lparr>hal := h\<rparr>
           | (None, h) \<Rightarrow> st\<lparr>hal := h\<rparr>)"

text \<open>The debug branch at the end of \<open>sendKmm\<close>: one read of \<open>isLineIdle\<close>, then
  \<open>while ((millis() - start) < 100)\<close> polling \<open>isLineBusy\<close> with
  \<open>delayMicroseconds(100)\<close> between polls, left at the first busy reading. Neither call
  tests whether the HAL is initialised, and no byte is read.\<close>

definition watch_line :: "kfd_state \<Rightarrow> kfd_state" where
  "watch_line st =
     (if debug st
      then st\<lparr>hal := (hal st)\<lparr>wire_log := wire_log (hal st) @ [LineWatch 100]\<rparr>\<rparr>
      else st)"

text \<open>\<open>sendKmm\<close>: wraps the body with the one-argument \<open>buildKmmFrame\<close>, sends the
  frame with \<open>sendBytesFast\<close>, and in debug mode watches the line.\<close>

definition sendKmm :: "kfd_state \<Rightarrow> u8 list \<Rightarrow> bool \<times> kfd_state" where
  "sendKmm st kmm =
     (if \<not> initialized st then (False, st)
      else (True, watch_line (st\<lparr>hal := sendBytesFast (hal st) (buildKmmFrame_wrapper kmm)\<rparr>)))"

text \<open>The loop of the \<open>0xC3\<close> branch of \<open>receiveKmm\<close>:
  \<open>while (receiveByte(&b, 500)) { raw.push_back(b); if (raw.size() > 100) break; }\<close>.\<close>

function dump_raw :: "hal_state \<Rightarrow> u8 list \<Rightarrow> u8 list \<times> hal_state" where
  "dump_raw h raw =
     (case receiveByte h 500 of
        (None, h') \<Rightarrow> (raw, h')
      | (Some b, h') \<Rightarrow>
          if length (raw @ [b]) > 100 then (raw @ [b], h') else dump_raw h' (raw @ [b]))"
  by pat_completeness auto
termination
  by (relation "measure (\<lambda>(h, raw). 101 - length raw)") auto

text \<open>The two diagnostic loops \<open>for (i = 0; i < n; i++)\<close> that read bytes with a
  100 ms timeout, print them and stop at the first timeout.\<close>

fun read_more :: "nat \<Rightarrow> hal_state \<Rightarrow> hal_state" where
  "read_more 0 h = h"
| "read_more (Suc n) h =
     (case receiveByte h 100 of
        (None, h') \<Rightarrow> h'
      | (Some b, h') \<Rightarrow> read_more n h')"

text \<open>The loop that fills \<open>body\<close>: \<open>len\<close> bytes, failure at the first timeout.\<close>

fun recv_body :: "nat \<Rightarrow> hal_state \<Rightarrow> nat \<Rightarrow> u8 list \<Rightarrow> u8 list option \<times> hal_state" where
  "recv_body 0 h timeoutMs body = (Some body, h)"
| "recv_body (Suc n) h timeoutMs body =
     (case receiveByte h timeoutMs of
        (None, h') \<Rightarrow> (None, h')
      | (Some b, h') \<Rightarrow> recv_body n h' timeoutMs (body @ [b]))"

text \<open>
  \<open>receiveKmm(kmm, timeoutMs)\<close>: \<open>Some kmm\<close> when the source returns \<open>true\<close>,
  \<open>None\<close> when it returns \<open>false\<close> (and leaves \<open>kmm\<close> untouched).
\<close>

definition receiveKmm :: "kfd_state \<Rightarrow> nat \<Rightarrow> u8 list option \<times> kfd_state" where
  "receiveKmm st timeoutMs =
     (if \<not> initialized st then (None, st)
      else case receiveByte (hal st) timeoutMs of
        (None, h1) \<Rightarrow> (None, st\<lparr>hal := h1\<rparr>)
      | (Some opcode, h1) \<Rightarrow>
          if opcode = 0xC3 then
            (case dump_raw h1 [opcode] of (raw, h2) \<Rightarrow> (Some raw, st\<lparr>hal := h2\<rparr>))
          else if opcode \<noteq> TWI_KMM then
            (None, st\<lparr>hal := (if debug st then read_more 10 h1 else h1)\<rparr>)
          else
            (case receiveByte h1 timeoutMs of
               (None, h2) \<Rightarrow> (None, st\<lparr>hal := h2\<rparr>)
             | (Some lenHi, h2) \<Rightarrow>
                 (case receiveByte h2 timeoutMs of
                    (None, h3) \<Rightarrow> (None, st\<lparr>hal := h3\<rparr>)
                  | (Some lenLo, h3) \<Rightarrow>
                      (let len = unat (push_bit 8 (ucast lenHi :: u16) OR ucast lenLo) in
                       if len < 6 \<or> len > 512 then (None, st\<lparr>hal := read_more 20 h3\<rparr>)
                       else
                         (case recv_body len h3 timeoutMs [] of
                            (None, h4) \<Rightarrow> (None, st\<lparr>hal := h4\<rparr>)
                          | (Some body, h4) \<Rightarrow>
                              (Some (if len > 6 then take (len - 6) (drop 4 body) else body),
                               st\<lparr>hal := h4\<rparr>))))))"

text \<open>The two hexadecimal digits that \<open>%02X\<close> prints for a byte.\<close>

definition hex02 :: "u8 \<Rightarrow> string" where
  "hex02 b = [''0123456789ABCDEF'' ! (unat b div 16), ''0123456789ABCDEF'' ! (unat b mod 16)]"

text \<open>\<open>keyload(key)\<close>, statement by statement.\<close>

definition keyload :: "kfd_state \<Rightarrow> KeyItem \<Rightarrow> Result \<times> kfd_state" where
  "keyload st k =
     (if \<not> initialized st then (mkResult False ''Not initialized'', st)
      else if operationInProgress st then (mkResult False ''Operation in progress'', st)
      else
        (case beginSession (st\<lparr>operationInProgress := True, abortRequested := False\<rparr>) of
           (False, dt, st1) \<Rightarrow>
             (mkResult False ''Failed to connect to radio'', st1\<lparr>operationInProgress := False\<rparr>)
         | (True, dt, st1) \<Rightarrow>
             (let kmm = buildModifyKeyCommand k;
                  frame = buildKmmFrame_wrapper kmm;
                  st2 = st1\<lparr>hal := sendBytesFast (hal st1) frame\<rparr>
              in case receiveKmm st2 10000 of
                   (None, st3) \<Rightarrow>
                     (mkResult False ''No response from radio after keyload'',
                      (endSession st3)\<lparr>operationInProgress := False\<rparr>)
                 | (Some response, st3) \<Rightarrow>
                     (let st4 = (endSession st3)\<lparr>operationInProgress := False\<rparr> in
                      if response = [] then (mkResult False ''Empty response'', st4)
                      else if response ! 0 = MSG_REKEY_ACK
                        then (mkResult True ''Key loaded successfully'', st4)
                      else if response ! 0 = MSG_NEGATIVE_ACK then
                        (let status = (if length response > 2 then response ! 2
                                       else STATUS_INVALID_MN)
                         in ((mkResult False (''NAK received: status 0x'' @ hex02 status))
                               \<lparr>status := status\<rparr>, st4))
                      else (mkResult False ''Unexpected response'', st4)))))"

text \<open>\<open>eraseAllKeys()\<close>.\<close>

definition eraseAllKeys :: "kfd_state \<Rightarrow> Result \<times> kfd_state" where
  "eraseAllKeys st =
     (if \<not> initialized st then (mkResult False ''Not initialized'', st)
      else if operationInProgress st then (mkResult False ''Operation in progress'', st)
      else
        (case beginSession (st\<lparr>operationInProgress := True\<rparr>) of
           (False, dt, st1) \<Rightarrow>
             (mkResult False ''Failed to connect to radio'', st1\<lparr>operationInProgress := False\<rparr>)
         | (True, dt, st1) \<Rightarrow>
             (case sendKmm st1 buildZeroizeCommand of
                (False, st2) \<Rightarrow>
                  (mkResult False ''Failed to send zeroize command'',
                   (endSession st2)\<lparr>operationInProgress := False\<rparr>)
              | (True, st2) \<Rightarrow>
                  (case receiveKmm st2 10000 of
                     (None, st3) \<Rightarrow>
                       (mkResult False ''No response'',
                        (endSession st3)\<lparr>operationInProgress := False\<rparr>)
                   | (Some response, st3) \<Rightarrow>
                       (mkResult True ''All keys erased'',
                        (endSession st3)\<lparr>operationInProgress := False\<rparr>)))))"

section \<open>Reading a frame back\<close>

text \<open>The inner KMM of a frame: what follows the opcode, the two length bytes, the
  control byte and the three bytes of the destination RSI, without the two CRC bytes.\<close>

definition innerKmm :: "u8 list \<Rightarrow> u8 list" where
  "innerKmm frame = take (length frame - 9) (drop 7 frame)"

text \<open>The bytes from offset 3 up to the byte before the CRC.\<close>

definition crcCovered :: "u8 list \<Rightarrow> u8 list" where
  "crcCovered frame = take (length frame - 5) (drop 3 frame)"

section \<open>Scripts and traces\<close>

text \<open>The outcome of the next \<open>receiveByte\<close> on a script.\<close>

definition next_rx :: "u8 option list \<Rightarrow> u8 option" where
  "next_rx rs = (case rs of [] \<Rightarrow> None | r # _ \<Rightarrow> r)"

text \<open>What one handshake attempt leaves in the log: the key signature, the ready
  request and the wait of 2000 ms with its outcome.\<close>

definition attempt_events :: "u8 option \<Rightarrow> wire_event list" where
  "attempt_events r = [KeySignature, TxByte 0xC0, RxByte 2000 r]"

text \<open>A \<open>KFDProtocol\<close> as its constructor and \<open>init\<close> leave it (debug on, no
  post-ready delay, no operation in progress), on an initialised HAL with an empty log,
  facing a peer that behaves as the script says.\<close>

definition fresh_kfd :: "u8 option list \<Rightarrow> kfd_state" where
  "fresh_kfd script =
     \<lparr>initialized = True, debug = True, operationInProgress = False, abortRequested = False,
      postReadyDelayUs = 0,
      hal = \<lparr>hal_initialized = True, rx_script = script, wire_log = []\<rparr>\<rparr>"

text \<open>The two ready responses and the peer each one announces.\<close>

definition ready_response :: "u8 option \<Rightarrow> bool" where
  "ready_response r = (r = Some 0xD0 \<or> r = Some 0xD1)"

definition peer_mode :: "u8 option \<Rightarrow> DeviceType" where
  "peer_mode r = (if r = Some 0xD0 then DEVICE_MR else if r = Some 0xD1 then DEVICE_KVL else DEVICE_NONE)"

text \<open>A state whose peer script has become \<open>rs\<close> and whose log has grown by
  \<open>evs\<close>.\<close>

definition after_events :: "kfd_state \<Rightarrow> u8 option list \<Rightarrow> wire_event list \<Rightarrow> kfd_state" where
  "after_events st rs evs = st\<lparr>hal := (hal st)\<lparr>rx_script := rs, wire_log := wire_log (hal st) @ evs\<rparr>\<rparr>"

text \<open>The key of the source's own test (\<open>testDESKey\<close>): keyset 1, SLN 202, key id 202,
  AES-256, the 32 bytes \<open>0x11 .. 0x30\<close>.\<close>

definition test_key :: KeyItem where
  "test_key =
     \<lparr>keysetId = 1, sln = 202, keyId = 202, algorithmId = ALGO_AES_256,
      key = map of_nat [17..<49], isKek = False, erase = False\<rparr>"

text \<open>The same key item with three bytes of key material under the AES-256 algorithm id,
  whose expected length is 32.\<close>

definition short_key :: KeyItem where
  "short_key = test_key\<lparr>key := [0x01, 0x02, 0x03]\<rparr>"

section \<open>Properties of the CRC\<close>

lemma crc16_loop_append: "crc16_loop (xs @ ys) c = crc16_loop ys (crc16_loop xs c)"
  by (induction xs arbitrary: c) simp_all

text \<open>
  C1. \<open>calculateCrc16\<close> starts from \<open>0xFFFF\<close>; each further byte costs one table
  lookup and the value returned for \<open>xs @ [b]\<close> is that table round applied to the value
  returned for \<open>xs\<close>, so nothing is complemented at the end; on the nine ASCII bytes of
  \<open>123456789\<close> it returns \<open>0x6F91\<close>, not \<open>0x906E\<close>, which is its complement.
\<close>

theorem calculateCrc16_check:
  "calculateCrc16 [] = 0xFFFF
   \<and> calculateCrc16 (xs @ [b]) =
       (crc16Table ! unat ((ucast b :: u16) XOR (calculateCrc16 xs AND 0xFF)))
         XOR drop_bit 8 (calculateCrc16 xs)
   \<and> calculateCrc16 (map (\<lambda>c. of_nat (of_char c)) ''123456789'') = 0x6F91
   \<and> calculateCrc16 (map (\<lambda>c. of_nat (of_char c)) ''123456789'') \<noteq> 0x906E
   \<and> NOT (calculateCrc16 (map (\<lambda>c. of_nat (of_char c)) ''123456789'')) = 0x906E"
proof -
  have init: "calculateCrc16 [] = 0xFFFF"
    by (simp add: calculateCrc16_def)
  have step: "calculateCrc16 (xs @ [b]) =
       (crc16Table ! unat ((ucast b :: u16) XOR (calculateCrc16 xs AND 0xFF)))
         XOR drop_bit 8 (calculateCrc16 xs)"
    by (simp add: calculateCrc16_def crc16_loop_append crc16_step_def)
  have chk: "calculateCrc16 (map (\<lambda>c. of_nat (of_char c)) ''123456789'') = 0x6F91"
    by (simp add: calculateCrc16_def crc16_step_def crc16Table_def)
  from init step chk show ?thesis by simp
qed

section \<open>Properties of the byte codec\<close>

lemma fold_count:
  "fold (\<lambda>i ones. if P i then ones + 1 else ones) xs (n::nat) = n + length (filter P xs)"
  by (induction xs arbitrary: n) simp_all

lemma isEvenParity_popcount: "isEvenParity b \<longleftrightarrow> even (popcount b)"
proof -
  have "(\<lambda>i. b AND push_bit i 1 \<noteq> 0) = bit b"
    by (rule ext) (simp add: bit_iff_and_push_bit_not_eq_0)
  then show ?thesis
    by (simp add: isEvenParity_def popcount_def fold_count even_iff_mod_2_eq_zero)
qed

lemma shift_out_nth:
  "i < n \<Longrightarrow> shift_out n f ! i = (if bit f i then Idle else Busy)"
proof (induction n arbitrary: f i)
  case 0
  then show ?case by simp
next
  case (Suc n)
  show ?case
  proof (cases i)
    case 0
    then show ?thesis by (simp add: bit_iff_and_push_bit_not_eq_0 [of f 0, simplified])
  next
    case (Suc j)
    with Suc.prems Suc.IH [of j "drop_bit 1 f"] show ?thesis
      by (simp add: bit_drop_bit_eq)
  qed
qed

lemma length_shift_out: "length (shift_out n f) = n"
  by (induction n arbitrary: f) simp_all

lemma bit_push_bit_1_9: "bit (push_bit 1 (x::u16)) 9 \<longleftrightarrow> bit x 8"
  by (simp only: bit_push_bit_iff) simp

lemma bit_ucast_u8_8: "\<not> bit (ucast (r::u8) :: u16) 8"
  by (simp add: bit_ucast_iff bit_word_iff_drop_bit_and [of r])

lemma sendByte_frame_bit9: "bit (sendByte_frame b) 9 \<longleftrightarrow> \<not> isEvenParity b"
  unfolding sendByte_frame_def Let_def
  by (simp only: bit_push_bit_1_9 if_distrib [of "\<lambda>f. bit f 8"] bit_or_iff bit_ucast_u8_8) simp

lemma parity_bit_eq: "parity_bit b = (if isEvenParity b then 0 else 1)"
  by (simp add: parity_bit_def sendByte_wire_def nth_append length_shift_out shift_out_nth
      sendByte_frame_bit9)

lemma popcount_C0: "popcount 0xC0 = 2"
  by (simp add: popcount_def upt_rec)

text \<open>
  C2, as the code has it. The parity bit that \<open>sendByte\<close> puts on the wire is 1 exactly
  when the byte has an odd number of set bits, so the set bits of the byte and the parity
  bit together are always even in number.
\<close>

theorem parity_bit_even:
  "even (popcount b + parity_bit b) \<and> (parity_bit b = 1 \<longleftrightarrow> odd (popcount b))"
  by (simp add: parity_bit_eq isEvenParity_popcount)

text \<open>
  C2, as the claim states it, fails at the byte \<open>0xC0\<close>: two set bits, the parity
  period driven (\<open>Busy\<close>, a 0), and the sum is 2, which is not odd.
\<close>

theorem parity_bit_odd_counterexample:
  "popcount 0xC0 = 2 \<and> sendByte_wire True 0xC0 ! 9 = Busy \<and> parity_bit 0xC0 = 0
   \<and> \<not> odd (popcount 0xC0 + parity_bit 0xC0)"
proof -
  have ev: "isEvenParity 0xC0"
    by (simp add: isEvenParity_popcount popcount_C0)
  have "sendByte_wire True 0xC0 ! 9 = Busy"
    by (simp add: sendByte_wire_def nth_append length_shift_out shift_out_nth
        sendByte_frame_bit9 ev)
  with ev show ?thesis
    by (simp add: popcount_C0 parity_bit_eq)
qed

section \<open>Properties of the frame builder\<close>

lemma buildKmmFrame_layout:
  "buildKmmFrame body mid rk =
     [0xC2, of_nat ((16 + length body) div 256 mod 256), of_nat ((16 + length body) mod 256),
      0x00, 0xFF, 0xFF, 0xFF,
      mid, of_nat ((7 + length body) div 256 mod 256), of_nat ((7 + length body) mod 256), rk,
      0xFF, 0xFF, 0xFF, 0xFF, 0xFF, 0xFF]
     @ body
     @ [ucast (calculateCrc16 ([0x00, 0xFF, 0xFF, 0xFF, mid,
              of_nat ((7 + length body) div 256 mod 256), of_nat ((7 + length body) mod 256), rk,
              0xFF, 0xFF, 0xFF, 0xFF, 0xFF, 0xFF] @ body) AND 0xFF),
        ucast (drop_bit 8 (calculateCrc16 ([0x00, 0xFF, 0xFF, 0xFF, mid,
              of_nat ((7 + length body) div 256 mod 256), of_nat ((7 + length body) mod 256), rk,
              0xFF, 0xFF, 0xFF, 0xFF, 0xFF, 0xFF] @ body)) AND 0xFF)]"
  by (simp add: buildKmmFrame_def Let_def usePreamble_def TWI_KMM_def add.commute)

lemma length_buildKmmFrame: "length (buildKmmFrame body mid rk) = 19 + length body"
  by (simp add: buildKmmFrame_layout)

lemma be16_of_nat: "n < 65536 \<Longrightarrow> be16 (of_nat (n div 256 mod 256)) (of_nat (n mod 256)) = n"
  by (simp add: be16_def unat_of_nat)

lemma le16_split: "le16 (ucast (c AND 0xFF)) (ucast (drop_bit 8 c AND 0xFF)) = (c::u16)"
proof -
  have m8: "(0xFF::u16) = mask 8"
    by (simp add: mask_eq_exp_minus_1)
  show ?thesis
    unfolding m8 le16_def
    by (rule bit_word_eqI) (auto simp add: bit_simps)
qed

lemma innerKmm_buildKmmFrame:
  "innerKmm (buildKmmFrame body mid rk) =
     [mid, of_nat ((7 + length body) div 256 mod 256), of_nat ((7 + length body) mod 256), rk,
      0xFF, 0xFF, 0xFF, 0xFF, 0xFF, 0xFF] @ body"
  by (simp add: innerKmm_def buildKmmFrame_layout)

lemma crcCovered_buildKmmFrame:
  "crcCovered (buildKmmFrame body mid rk) =
     [0x00, 0xFF, 0xFF, 0xFF] @ innerKmm (buildKmmFrame body mid rk)"
  by (simp add: crcCovered_def innerKmm_def buildKmmFrame_layout)

text \<open>
  C3, as the code has it. For every KMM body of at most 65519 bytes, the two bytes after
  the opcode, read high byte first, are 4 + the length of the inner KMM + 2, which is the
  length of the frame minus 3; and bytes 1 and 2 of the inner KMM, read high byte first, are
  7 + the length of the body.
\<close>

theorem buildKmmFrame_length_fields:
  assumes "length body \<le> 65519"
  shows "be16 (buildKmmFrame body mid rk ! 1) (buildKmmFrame body mid rk ! 2)
           = 4 + length (innerKmm (buildKmmFrame body mid rk)) + 2
       \<and> be16 (buildKmmFrame body mid rk ! 1) (buildKmmFrame body mid rk ! 2)
           = length (buildKmmFrame body mid rk) - 3
       \<and> be16 (innerKmm (buildKmmFrame body mid rk) ! 1) (innerKmm (buildKmmFrame body mid rk) ! 2)
           = 7 + length body"
proof -
  have outer: "be16 (buildKmmFrame body mid rk ! 1) (buildKmmFrame body mid rk ! 2)
                 = 16 + length body"
    using assms be16_of_nat [of "16 + length body"] by (simp add: buildKmmFrame_layout)
  have inner: "be16 (innerKmm (buildKmmFrame body mid rk) ! 1)
                    (innerKmm (buildKmmFrame body mid rk) ! 2) = 7 + length body"
    using assms be16_of_nat [of "7 + length body"] by (simp add: innerKmm_buildKmmFrame)
  have len: "length (innerKmm (buildKmmFrame body mid rk)) = 10 + length body"
    by (simp add: innerKmm_buildKmmFrame)
  from outer inner len show ?thesis
    by (simp add: length_buildKmmFrame)
qed

text \<open>The inventory request of the source: body \<open>0x02\<close>, message id \<open>0x00\<close>.\<close>

theorem buildKmmFrame_length_fields_witness:
  "length [0x02 :: u8] \<le> 65519
   \<and> be16 (buildKmmFrame [0x02] 0x00 0xC0 ! 1) (buildKmmFrame [0x02] 0x00 0xC0 ! 2) = 17
   \<and> length (buildKmmFrame [0x02] 0x00 0xC0) = 20
   \<and> be16 (innerKmm (buildKmmFrame [0x02] 0x00 0xC0) ! 1)
           (innerKmm (buildKmmFrame [0x02] 0x00 0xC0) ! 2) = 8"
  using buildKmmFrame_length_fields [of "[0x02]" "0x00" "0xC0"]
  by (simp add: length_buildKmmFrame innerKmm_buildKmmFrame)

text \<open>
  C3, as the claim states it, fails for a body of 65520 bytes: the frame has 65539 bytes,
  so the length to announce is 65536, and the two-byte field holds 0.
\<close>

theorem buildKmmFrame_length_field_counterexample:
  "length (buildKmmFrame (replicate 65520 0) 0x04 0xC0) - 3 = 65536
   \<and> 4 + length (innerKmm (buildKmmFrame (replicate 65520 0) 0x04 0xC0)) + 2 = 65536
   \<and> be16 (buildKmmFrame (replicate 65520 0) 0x04 0xC0 ! 1)
           (buildKmmFrame (replicate 65520 0) 0x04 0xC0 ! 2) = 0"
proof -
  have "length (innerKmm (buildKmmFrame (replicate 65520 0) 0x04 0xC0)) = 65530"
    by (simp add: innerKmm_buildKmmFrame)
  moreover have "length (buildKmmFrame (replicate 65520 0) 0x04 0xC0) = 65539"
    by (simp add: length_buildKmmFrame)
  moreover have "be16 (buildKmmFrame (replicate 65520 0) 0x04 0xC0 ! 1)
           (buildKmmFrame (replicate 65520 0) 0x04 0xC0 ! 2) = 0"
    by (simp add: buildKmmFrame_layout be16_def)
  ultimately show ?thesis by simp
qed

text \<open>
  C4. In every frame that \<open>buildKmmFrame\<close> returns, the last two bytes are the low byte
  and then the high byte of the CRC-16 of the bytes from offset 3 up to the byte before them;
  read low byte first they are that CRC; and the bytes covered are the control byte, the
  destination RSI and the inner KMM.
\<close>

theorem buildKmmFrame_crc:
  "(let frame = buildKmmFrame body mid rk;
        n = length frame;
        crc = calculateCrc16 (crcCovered frame)
    in frame ! (n - 2) = ucast (crc AND 0xFF)
     \<and> frame ! (n - 1) = ucast (drop_bit 8 crc AND 0xFF)
     \<and> le16 (frame ! (n - 2)) (frame ! (n - 1)) = crc
     \<and> crcCovered frame = [0x00, 0xFF, 0xFF, 0xFF] @ innerKmm frame
     \<and> frame = take 3 frame @ crcCovered frame @ [frame ! (n - 2), frame ! (n - 1)])"
proof -
  let ?f = "buildKmmFrame body mid rk"
  let ?cov = "[0x00, 0xFF, 0xFF, 0xFF, mid,
              of_nat ((7 + length body) div 256 mod 256), of_nat ((7 + length body) mod 256), rk,
              0xFF, 0xFF, 0xFF, 0xFF, 0xFF, 0xFF] @ body"
  have cov: "crcCovered ?f = ?cov"
    by (simp add: crcCovered_def buildKmmFrame_layout)
  have lo: "?f ! (length ?f - 2) = ucast (calculateCrc16 ?cov AND 0xFF)"
    by (simp add: buildKmmFrame_layout nth_append)
  have hi: "?f ! (length ?f - 1) = ucast (drop_bit 8 (calculateCrc16 ?cov) AND 0xFF)"
    by (simp add: buildKmmFrame_layout nth_append)
  have split: "?f = take 3 ?f @ crcCovered ?f @ [?f ! (length ?f - 2), ?f ! (length ?f - 1)]"
    unfolding lo hi cov by (simp add: buildKmmFrame_layout)
  show ?thesis
    unfolding Let_def
    using split by (simp only: lo hi le16_split cov [symmetric] crcCovered_buildKmmFrame)
qed

section \<open>Properties of the session handshake\<close>

declare beginSession_loop.simps [simp del]

lemma receiveByte_script:
  "hal_initialized h \<Longrightarrow>
   receiveByte h t =
     (next_rx (rx_script h),
      h\<lparr>rx_script := tl (rx_script h), wire_log := wire_log h @ [RxByte t (next_rx (rx_script h))]\<rparr>)"
  by (cases "rx_script h") (simp_all add: receiveByte_def next_rx_def)

lemma handshake_attempt:
  "hal_initialized h \<Longrightarrow>
   receiveByte (sendKeySignatureAndReadyReq h) 2000 =
     (next_rx (rx_script h),
      h\<lparr>rx_script := tl (rx_script h), wire_log := wire_log h @ attempt_events (next_rx (rx_script h))\<rparr>)"
  by (simp add: receiveByte_script sendKeySignatureAndReadyReq_def sendByte_def attempt_events_def)

lemma beginSession_loop_done: "3 < attempt \<Longrightarrow> beginSession_loop attempt st = (False, None, st)"
  by (subst beginSession_loop.simps) simp

lemma beginSession_loop_round:
  assumes "attempt \<le> 3" "hal_initialized (hal st)"
  shows "beginSession_loop attempt st =
     (let r = next_rx (rx_script (hal st));
          st' = st\<lparr>hal := (hal st)\<lparr>rx_script := tl (rx_script (hal st)),
                                   wire_log := wire_log (hal st) @ attempt_events r\<rparr>\<rparr>
      in if r = Some 0xD0 then (True, Some DEVICE_MR, post_ready_delay st')
         else if r = Some 0xD1 then (True, Some DEVICE_KVL, post_ready_delay st')
         else beginSession_loop (attempt + 1) (delay_ms 500 st'))"
  using assms
  by (subst beginSession_loop.simps)
     (auto simp add: handshake_attempt Let_def TWI_READY_MODE_MR_def TWI_READY_MODE_KVL_def
       split: option.splits)


lemma beginSession_unrolled:
  assumes "initialized st" "hal_initialized (hal st)"
  shows "beginSession st =
     (let rs = rx_script (hal st);
          r1 = next_rx rs; r2 = next_rx (tl rs); r3 = next_rx (tl (tl rs));
          a1 = attempt_events r1;
          a2 = a1 @ [DelayMs 500] @ attempt_events r2;
          a3 = a2 @ [DelayMs 500] @ attempt_events r3
      in if ready_response r1
           then (True, Some (peer_mode r1), post_ready_delay (after_events st (tl rs) a1))
         else if ready_response r2
           then (True, Some (peer_mode r2), post_ready_delay (after_events st (tl (tl rs)) a2))
         else if ready_response r3
           then (True, Some (peer_mode r3), post_ready_delay (after_events st (tl (tl (tl rs))) a3))
         else (False, None, after_events st (tl (tl (tl rs))) (a3 @ [DelayMs 500])))"
  using assms
  by (simp add: beginSession_def beginSession_loop_round beginSession_loop_done Let_def
      delay_ms_def after_events_def ready_response_def peer_mode_def)

text \<open>
  C6. On an initialised protocol and HAL, with \<open>r1\<close>, \<open>r2\<close>, \<open>r3\<close> the outcomes
  of the first three waits (a byte or a timeout): the handshake succeeds at the first attempt
  whose outcome is \<open>0xD0\<close> or \<open>0xD1\<close>, with the peer mode of that byte and without
  a further attempt; every other outcome is followed by a wait of 500 ms and, up to the third
  attempt, by a new key signature and ready request; after three such outcomes the handshake
  fails, and \<open>keyload\<close> then fails with nothing more on the wire than those three
  attempts: no KMM frame is sent.
\<close>

theorem beginSession_attempts:
  assumes "initialized st" "hal_initialized (hal st)"
  shows "(let rs = rx_script (hal st);
          r1 = next_rx rs; r2 = next_rx (tl rs); r3 = next_rx (tl (tl rs));
          a1 = attempt_events r1;
          a2 = a1 @ [DelayMs 500] @ attempt_events r2;
          a3 = a2 @ [DelayMs 500] @ attempt_events r3
      in beginSession st =
          (if ready_response r1
             then (True, Some (peer_mode r1), post_ready_delay (after_events st (tl rs) a1))
           else if ready_response r2
             then (True, Some (peer_mode r2), post_ready_delay (after_events st (tl (tl rs)) a2))
           else if ready_response r3
             then (True, Some (peer_mode r3), post_ready_delay (after_events st (tl (tl (tl rs))) a3))
           else (False, None, after_events st (tl (tl (tl rs))) (a3 @ [DelayMs 500])))
        \<and> (\<not> ready_response r1 \<and> \<not> ready_response r2 \<and> \<not> ready_response r3
             \<and> \<not> operationInProgress st \<longrightarrow>
             fst (keyload st k) = mkResult False ''Failed to connect to radio''
             \<and> wire_log (hal (snd (keyload st k))) = wire_log (hal st) @ a3 @ [DelayMs 500]))"
proof -
  let ?pre = "st\<lparr>operationInProgress := True, abortRequested := False\<rparr>"
  have pre: "initialized ?pre" "hal_initialized (hal ?pre)" "hal ?pre = hal st"
    using assms by simp_all
  note b = beginSession_unrolled [OF assms]
  note bp = beginSession_unrolled [OF pre(1,2)]
  show ?thesis
    using assms b
    by (auto simp add: Let_def keyload_def bp after_events_def)
qed

text \<open>Two runs: a peer that answers \<open>0x55\<close>, then nothing, then \<open>0xD1\<close>; and a
  peer that never answers with a ready response in three attempts.\<close>

theorem beginSession_attempts_witness:
  "beginSession (fresh_kfd [Some 0x55, None, Some 0xD1, Some 0xC2]) =
     (True, Some DEVICE_KVL,
      after_events (fresh_kfd [Some 0x55, None, Some 0xD1, Some 0xC2]) [Some 0xC2]
        [KeySignature, TxByte 0xC0, RxByte 2000 (Some 0x55), DelayMs 500,
         KeySignature, TxByte 0xC0, RxByte 2000 None, DelayMs 500,
         KeySignature, TxByte 0xC0, RxByte 2000 (Some 0xD1)])
   \<and> fst (keyload (fresh_kfd [Some 0x55, Some 0xC3, None, Some 0xD0]) test_key)
       = mkResult False ''Failed to connect to radio''
   \<and> wire_log (hal (snd (keyload (fresh_kfd [Some 0x55, Some 0xC3, None, Some 0xD0]) test_key)))
       = [KeySignature, TxByte 0xC0, RxByte 2000 (Some 0x55), DelayMs 500,
          KeySignature, TxByte 0xC0, RxByte 2000 (Some 0xC3), DelayMs 500,
          KeySignature, TxByte 0xC0, RxByte 2000 None, DelayMs 500]"
proof -
  have i1: "initialized (fresh_kfd s)" "hal_initialized (hal (fresh_kfd s))" for s
    by (simp_all add: fresh_kfd_def)
  have "beginSession (fresh_kfd [Some 0x55, None, Some 0xD1, Some 0xC2]) =
     (True, Some DEVICE_KVL,
      after_events (fresh_kfd [Some 0x55, None, Some 0xD1, Some 0xC2]) [Some 0xC2]
        [KeySignature, TxByte 0xC0, RxByte 2000 (Some 0x55), DelayMs 500,
         KeySignature, TxByte 0xC0, RxByte 2000 None, DelayMs 500,
         KeySignature, TxByte 0xC0, RxByte 2000 (Some 0xD1)])"
    using beginSession_attempts [OF i1, of "[Some 0x55, None, Some 0xD1, Some 0xC2]" test_key]
    by (simp add: Let_def fresh_kfd_def next_rx_def ready_response_def peer_mode_def
        attempt_events_def post_ready_delay_def after_events_def)
  moreover have "fst (keyload (fresh_kfd [Some 0x55, Some 0xC3, None, Some 0xD0]) test_key)
       = mkResult False ''Failed to connect to radio''
   \<and> wire_log (hal (snd (keyload (fresh_kfd [Some 0x55, Some 0xC3, None, Some 0xD0]) test_key)))
       = [KeySignature, TxByte 0xC0, RxByte 2000 (Some 0x55), DelayMs 500,
          KeySignature, TxByte 0xC0, RxByte 2000 (Some 0xC3), DelayMs 500,
          KeySignature, TxByte 0xC0, RxByte 2000 None, DelayMs 500]"
    using beginSession_attempts [OF i1, of "[Some 0x55, Some 0xC3, None, Some 0xD0]" test_key]
    by (simp add: Let_def fresh_kfd_def next_rx_def ready_response_def attempt_events_def)
  ultimately show ?thesis by simp
qed

section \<open>Properties of the receiver\<close>

declare dump_raw.simps [simp del]

lemma recv_body_script:
  "hal_initialized h \<Longrightarrow> rx_script h = map Some bs @ rest \<Longrightarrow>
   recv_body (length bs) h t acc =
     (Some (acc @ bs),
      h\<lparr>rx_script := rest, wire_log := wire_log h @ map (\<lambda>b. RxByte t (Some b)) bs\<rparr>)"
proof (induction bs arbitrary: h acc)
  case Nil
  then show ?case by simp
next
  case (Cons b bs)
  let ?h' = "h\<lparr>rx_script := map Some bs @ rest, wire_log := wire_log h @ [RxByte t (Some b)]\<rparr>"
  have rb: "receiveByte h t = (Some b, ?h')"
    using Cons.prems by (simp add: receiveByte_def)
  have "recv_body (length bs) ?h' t (acc @ [b]) =
     (Some ((acc @ [b]) @ bs),
      ?h'\<lparr>rx_script := rest, wire_log := wire_log ?h' @ map (\<lambda>b. RxByte t (Some b)) bs\<rparr>)"
    using Cons.prems by (intro Cons.IH) simp_all
  with rb show ?case by simp
qed

lemma dump_raw_collect:
  "hal_initialized h \<Longrightarrow> length raw \<le> 100 \<Longrightarrow>
   fst (dump_raw h raw) =
     raw @ map the (take (101 - length raw) (takeWhile (\<lambda>r. r \<noteq> None) (rx_script h)))"
proof (induction rs \<equiv> "rx_script h" arbitrary: h raw)
  case Nil
  then show ?case
    by (subst dump_raw.simps) (simp add: receiveByte_def)
next
  case (Cons r rs)
  show ?case
  proof (cases r)
    case None
    with Cons.prems Cons.hyps(2) [symmetric] show ?thesis
      by (subst dump_raw.simps) (simp add: receiveByte_def)
  next
    case (Some b)
    let ?h' = "h\<lparr>rx_script := rs, wire_log := wire_log h @ [RxByte 500 (Some b)]\<rparr>"
    have rb: "receiveByte h 500 = (Some b, ?h')"
      using Cons.prems Cons.hyps(2) [symmetric] Some by (simp add: receiveByte_def)
    show ?thesis
    proof (cases "length raw < 100")
      case True
      have "fst (dump_raw ?h' (raw @ [b])) =
          (raw @ [b]) @ map the (take (101 - length (raw @ [b])) (takeWhile (\<lambda>r. r \<noteq> None) (rx_script ?h')))"
        using Cons.prems True by (intro Cons.hyps(1)) simp_all
      moreover have "101 - length raw = Suc (100 - length raw)"
        using True by simp
      ultimately show ?thesis
        using True Some Cons.hyps(2) [symmetric] rb
        by (subst dump_raw.simps) simp
    next
      case False
      with Cons.prems have "length raw = 100" by simp
      then show ?thesis
        using Some Cons.hyps(2) [symmetric] rb
        by (subst dump_raw.simps) simp
    qed
  qed
qed

lemma dump_raw_log:
  "hal_initialized h \<Longrightarrow>
   \<exists>outs. wire_log (snd (dump_raw h raw)) = wire_log h @ map (RxByte 500) outs"
proof (induction rs \<equiv> "rx_script h" arbitrary: h raw)
  case Nil
  then have "wire_log (snd (dump_raw h raw)) = wire_log h @ map (RxByte 500) [None]"
    by (subst dump_raw.simps) (simp add: receiveByte_def)
  then show ?case by blast
next
  case (Cons r rs)
  show ?case
  proof (cases r)
    case None
    with Cons.prems Cons.hyps(2) [symmetric]
    have "wire_log (snd (dump_raw h raw)) = wire_log h @ map (RxByte 500) [None]"
      by (subst dump_raw.simps) (simp add: receiveByte_def)
    then show ?thesis by blast
  next
    case (Some b)
    let ?h' = "h\<lparr>rx_script := rs, wire_log := wire_log h @ [RxByte 500 (Some b)]\<rparr>"
    have rb: "receiveByte h 500 = (Some b, ?h')"
      using Cons.prems Cons.hyps(2) [symmetric] Some by (simp add: receiveByte_def)
    show ?thesis
    proof (cases "length (raw @ [b]) > 100")
      case True
      then have "wire_log (snd (dump_raw h raw)) = wire_log h @ map (RxByte 500) [Some b]"
        using rb by (subst dump_raw.simps) simp
      then show ?thesis by blast
    next
      case False
      obtain outs where "wire_log (snd (dump_raw ?h' (raw @ [b]))) = wire_log ?h' @ map (RxByte 500) outs"
        using Cons.hyps(1) [of ?h' "raw @ [b]"] Cons.prems by auto
      then have "wire_log (snd (dump_raw h raw)) = wire_log h @ map (RxByte 500) (Some b # outs)"
        using rb False by (subst dump_raw.simps) simp
      then show ?thesis by blast
    qed
  qed
qed

lemma read_more_log:
  "\<exists>outs. length outs \<le> n \<and> wire_log (read_more n h) = wire_log h @ map (RxByte 100) outs"
proof (induction n arbitrary: h)
  case 0
  have "length ([] :: u8 option list) \<le> 0 \<and> wire_log (read_more 0 h) = wire_log h @ map (RxByte 100) []"
    by simp
  then show ?case by blast
next
  case (Suc n)
  show ?case
  proof (cases "hal_initialized h")
    case False
    then have "length ([] :: u8 option list) \<le> Suc n \<and> wire_log (read_more (Suc n) h) = wire_log h @ map (RxByte 100) []"
      by (simp add: receiveByte_def)
    then show ?thesis by blast
  next
    case True
    show ?thesis
    proof (cases "rx_script h")
      case Nil
      with True have "length [None :: u8 option] \<le> Suc n \<and> wire_log (read_more (Suc n) h) = wire_log h @ map (RxByte 100) [None]"
        by (simp add: receiveByte_def)
      then show ?thesis by blast
    next
      case (Cons r rs)
      show ?thesis
      proof (cases r)
        case None
        with True Cons have "length [None :: u8 option] \<le> Suc n \<and> wire_log (read_more (Suc n) h) = wire_log h @ map (RxByte 100) [None]"
          by (simp add: receiveByte_def)
        then show ?thesis by blast
      next
        case (Some b)
        let ?h' = "h\<lparr>rx_script := rs, wire_log := wire_log h @ [RxByte 100 (Some b)]\<rparr>"
        obtain outs where o: "length outs \<le> n" "wire_log (read_more n ?h') = wire_log ?h' @ map (RxByte 100) outs"
          using Suc.IH [of ?h'] by blast
        with True Cons Some
        have "length (Some b # outs) \<le> Suc n \<and> wire_log (read_more (Suc n) h) = wire_log h @ map (RxByte 100) (Some b # outs)"
          by (simp add: receiveByte_def)
        then show ?thesis by blast
      qed
    qed
  qed
qed

lemma unat_len16: "unat (push_bit 8 (ucast (hi::u8) :: u16) OR ucast (lo::u8)) = be16 hi lo"
proof -
  have disj: "push_bit 8 (ucast hi :: u16) OR ucast lo = push_bit 8 (ucast hi) + ucast lo"
    by (rule disjunctive_add [symmetric]) (auto simp add: bit_simps dest: bit_imp_le_length)
  have hi: "unat (ucast hi :: u16) = unat hi" and lo: "unat (ucast lo :: u16) = unat lo"
    by (simp_all add: unsigned_ucast_eq take_bit_nat_eq_self
        order_less_trans [OF unsigned_less])
  have bh: "unat hi < 256" and bl: "unat lo < 256"
    using unsigned_less [of hi, where 'a = nat] unsigned_less [of lo, where 'a = nat] by simp_all
  have "unat (push_bit 8 (ucast hi :: u16)) = unat hi * 256"
    using bh by (simp add: push_bit_eq_mult unat_word_ariths hi)
  then show ?thesis
    using bh bl unfolding disj by (simp add: be16_def unat_word_ariths lo)
qed


lemma receiveKmm_frame:
  assumes "initialized st" "hal_initialized (hal st)"
    and script: "rx_script (hal st) = map Some ([0xC2, lenHi, lenLo] @ body) @ rest"
    and len: "be16 lenHi lenLo = length body" "6 \<le> length body" "length body \<le> 512"
  shows "fst (receiveKmm st t) =
           Some (if length body > 6 then take (length body - 6) (drop 4 body) else body)"
proof -
  let ?h3 = "(hal st)\<lparr>rx_script := map Some body @ rest,
      wire_log := wire_log (hal st) @ [RxByte t (Some 0xC2), RxByte t (Some lenHi), RxByte t (Some lenLo)]\<rparr>"
  have body: "recv_body (length body) ?h3 t [] =
     (Some ([] @ body),
      ?h3\<lparr>rx_script := rest, wire_log := wire_log ?h3 @ map (\<lambda>b. RxByte t (Some b)) body\<rparr>)"
    using assms(2) by (intro recv_body_script) simp_all
  show ?thesis
    using assms(1,2) script len body
    by (simp add: receiveKmm_def receiveByte_def TWI_KMM_def unat_len16 Let_def)
qed

text \<open>
  C10, as the code has it. Take two inbound frames with opcode \<open>0xC2\<close>, the same length
  field between 7 and 512, and the same bytes except for the last two. Whatever those two
  bytes are, \<open>receiveKmm\<close> succeeds on both frames and returns the same inner KMM: the
  bytes after the control byte and the destination RSI, without the last two. No CRC is
  computed or compared.
\<close>

theorem receiveKmm_ignores_crc:
  assumes "initialized st" "hal_initialized (hal st)"
    and "initialized st'" "hal_initialized (hal st')"
    and "rx_script (hal st) = map Some ([0xC2, lenHi, lenLo] @ payload @ [c1, c2]) @ rest"
    and "rx_script (hal st') = map Some ([0xC2, lenHi, lenLo] @ payload @ [d1, d2]) @ rest'"
    and "be16 lenHi lenLo = length payload + 2"
    and "7 \<le> be16 lenHi lenLo" "be16 lenHi lenLo \<le> 512"
  shows "fst (receiveKmm st t) = Some (drop 4 payload)
       \<and> fst (receiveKmm st' t') = Some (drop 4 payload)"
proof -
  have "fst (receiveKmm st t) = Some (drop 4 payload)"
    using receiveKmm_frame [OF assms(1,2), of lenHi lenLo "payload @ [c1, c2]" rest t] assms(5,7,8,9)
    by simp
  moreover have "fst (receiveKmm st' t') = Some (drop 4 payload)"
    using receiveKmm_frame [OF assms(3,4), of lenHi lenLo "payload @ [d1, d2]" rest' t'] assms(6,7,8,9)
    by simp
  ultimately show ?thesis by simp
qed

text \<open>The rekey acknowledgment \<open>07 00 04\<close> with two different pairs of trailing
  bytes.\<close>

theorem receiveKmm_ignores_crc_witness:
  "fst (receiveKmm (fresh_kfd (map Some [0xC2, 0x00, 0x09, 0x00, 0xFF, 0xFF, 0xFF, 0x07, 0x00, 0x04, 0x12, 0x34])) 10000)
     = Some [0x07, 0x00, 0x04]
   \<and> fst (receiveKmm (fresh_kfd (map Some [0xC2, 0x00, 0x09, 0x00, 0xFF, 0xFF, 0xFF, 0x07, 0x00, 0x04, 0xAB, 0xCD])) 5000)
     = Some [0x07, 0x00, 0x04]"
  using receiveKmm_ignores_crc [of "fresh_kfd (map Some [0xC2, 0x00, 0x09, 0x00, 0xFF, 0xFF, 0xFF, 0x07, 0x00, 0x04, 0x12, 0x34])"
      "fresh_kfd (map Some [0xC2, 0x00, 0x09, 0x00, 0xFF, 0xFF, 0xFF, 0x07, 0x00, 0x04, 0xAB, 0xCD])"
      "0x00" "0x09" "[0x00, 0xFF, 0xFF, 0xFF, 0x07, 0x00, 0x04]" "0x12" "0x34" "[]" "0xAB" "0xCD" "[]" 10000 5000]
  by (simp add: fresh_kfd_def be16_def)

text \<open>
  C10, as the claim states it, fails at the length 6: the branch \<open>len > 6\<close> is not
  taken, the six bytes are returned as they came, the two trailing bytes among them, and two
  frames that differ only there give different results.
\<close>

theorem receiveKmm_length6_counterexample:
  "fst (receiveKmm (fresh_kfd (map Some [0xC2, 0x00, 0x06, 0x00, 0xFF, 0xFF, 0xFF, 0x12, 0x34])) 10000)
     = Some [0x00, 0xFF, 0xFF, 0xFF, 0x12, 0x34]
   \<and> fst (receiveKmm (fresh_kfd (map Some [0xC2, 0x00, 0x06, 0x00, 0xFF, 0xFF, 0xFF, 0xAB, 0xCD])) 10000)
     = Some [0x00, 0xFF, 0xFF, 0xFF, 0xAB, 0xCD]
   \<and> fst (receiveKmm (fresh_kfd (map Some [0xC2, 0x00, 0x06, 0x00, 0xFF, 0xFF, 0xFF, 0x12, 0x34])) 10000)
     \<noteq> fst (receiveKmm (fresh_kfd (map Some [0xC2, 0x00, 0x06, 0x00, 0xFF, 0xFF, 0xFF, 0xAB, 0xCD])) 10000)"
proof -
  have i: "initialized (fresh_kfd s)" "hal_initialized (hal (fresh_kfd s))" for s
    by (simp_all add: fresh_kfd_def)
  have a: "fst (receiveKmm (fresh_kfd (map Some [0xC2, 0x00, 0x06, 0x00, 0xFF, 0xFF, 0xFF, 0x12, 0x34])) 10000)
     = Some [0x00, 0xFF, 0xFF, 0xFF, 0x12, 0x34]"
    using receiveKmm_frame [OF i, of _ "0x00" "0x06" "[0x00, 0xFF, 0xFF, 0xFF, 0x12, 0x34]" "[]" 10000]
    by (simp add: fresh_kfd_def be16_def)
  have b: "fst (receiveKmm (fresh_kfd (map Some [0xC2, 0x00, 0x06, 0x00, 0xFF, 0xFF, 0xFF, 0xAB, 0xCD])) 10000)
     = Some [0x00, 0xFF, 0xFF, 0xFF, 0xAB, 0xCD]"
    using receiveKmm_frame [OF i, of _ "0x00" "0x06" "[0x00, 0xFF, 0xFF, 0xFF, 0xAB, 0xCD]" "[]" 10000]
    by (simp add: fresh_kfd_def be16_def)
  show ?thesis unfolding a b by simp
qed

lemma receiveKmm_C3:
  assumes "initialized st" "hal_initialized (hal st)"
    and "rx_script (hal st) = Some 0xC3 # rest"
  shows "fst (receiveKmm st t) = Some (0xC3 # map the (take 100 (takeWhile (\<lambda>r. r \<noteq> None) rest)))"
    and "\<exists>outs. wire_log (hal (snd (receiveKmm st t)))
                 = wire_log (hal st) @ RxByte t (Some 0xC3) # map (RxByte 500) outs"
proof -
  let ?h1 = "(hal st)\<lparr>rx_script := rest, wire_log := wire_log (hal st) @ [RxByte t (Some 0xC3)]\<rparr>"
  have rb: "receiveByte (hal st) t = (Some 0xC3, ?h1)"
    using assms by (simp add: receiveByte_def)
  have h1: "hal_initialized ?h1"
    using assms by simp
  obtain outs where outs: "wire_log (snd (dump_raw ?h1 [0xC3])) = wire_log ?h1 @ map (RxByte 500) outs"
    using dump_raw_log [OF h1, of "[0xC3]"] by blast
  have col: "fst (dump_raw ?h1 [0xC3]) =
      [0xC3] @ map the (take (101 - length [0xC3 :: u8]) (takeWhile (\<lambda>r. r \<noteq> None) (rx_script ?h1)))"
    using h1 by (intro dump_raw_collect) simp_all
  have res: "receiveKmm st t = (Some (fst (dump_raw ?h1 [0xC3])), st\<lparr>hal := snd (dump_raw ?h1 [0xC3])\<rparr>)"
    using assms(1) rb by (simp add: receiveKmm_def split: prod.splits)
  show "fst (receiveKmm st t) = Some (0xC3 # map the (take 100 (takeWhile (\<lambda>r. r \<noteq> None) rest)))"
    using col by (simp add: res)
  have "wire_log (hal (snd (receiveKmm st t))) = wire_log (hal st) @ RxByte t (Some 0xC3) # map (RxByte 500) outs"
    using outs by (simp add: res)
  then show "\<exists>outs. wire_log (hal (snd (receiveKmm st t)))
                 = wire_log (hal st) @ RxByte t (Some 0xC3) # map (RxByte 500) outs"
    by blast
qed

lemma receiveKmm_other:
  assumes "initialized st" "hal_initialized (hal st)"
    and "rx_script (hal st) = Some opcode # rest"
    and op: "opcode \<noteq> 0xC3" "opcode \<noteq> 0xC2"
  shows "fst (receiveKmm st t) = None"
    and "\<exists>outs. length outs \<le> 10
           \<and> wire_log (hal (snd (receiveKmm st t)))
               = wire_log (hal st) @ RxByte t (Some opcode) # map (RxByte 100) outs"
proof -
  let ?h1 = "(hal st)\<lparr>rx_script := rest, wire_log := wire_log (hal st) @ [RxByte t (Some opcode)]\<rparr>"
  have rb: "receiveByte (hal st) t = (Some opcode, ?h1)"
    using assms by (simp add: receiveByte_def)
  have res: "receiveKmm st t = (None, st\<lparr>hal := (if debug st then read_more 10 ?h1 else ?h1)\<rparr>)"
    using assms(1) rb op by (simp add: receiveKmm_def TWI_KMM_def)
  show "fst (receiveKmm st t) = None"
    by (simp add: res)
  show "\<exists>outs. length outs \<le> 10
           \<and> wire_log (hal (snd (receiveKmm st t)))
               = wire_log (hal st) @ RxByte t (Some opcode) # map (RxByte 100) outs"
  proof (cases "debug st")
    case True
    obtain outs where "length outs \<le> 10" "wire_log (read_more 10 ?h1) = wire_log ?h1 @ map (RxByte 100) outs"
      using read_more_log [of 10 ?h1] by blast
    then have "length outs \<le> 10 \<and> wire_log (hal (snd (receiveKmm st t)))
                    = wire_log (hal st) @ RxByte t (Some opcode) # map (RxByte 100) outs"
      using True by (simp add: res)
    then show ?thesis by blast
  next
    case False
    then have "length ([] :: u8 option list) \<le> 10 \<and> wire_log (hal (snd (receiveKmm st t)))
                    = wire_log (hal st) @ RxByte t (Some opcode) # map (RxByte 100) []"
      by (simp add: res)
    then show ?thesis by blast
  qed
qed

text \<open>
  C9, as the code has it. When the first byte received is \<open>0xC3\<close>, \<open>receiveKmm\<close>
  reads on with a timeout of 500 ms per byte until a timeout or until 100 trailing bytes are
  collected, and returns \<open>true\<close> with the raw buffer, the \<open>0xC3\<close> first. When the first
  byte is anything else than \<open>0xC2\<close> and \<open>0xC3\<close>, it returns \<open>false\<close> and no
  buffer, after at most 10 further reads with a timeout of 100 ms each.
\<close>

theorem receiveKmm_unexpected_opcode:
  assumes "initialized st" "hal_initialized (hal st)"
    and "rx_script (hal st) = Some opcode # rest"
  shows "(opcode = 0xC3 \<longrightarrow>
            fst (receiveKmm st t) = Some (0xC3 # map the (take 100 (takeWhile (\<lambda>r. r \<noteq> None) rest)))
          \<and> (\<exists>outs. wire_log (hal (snd (receiveKmm st t)))
                      = wire_log (hal st) @ RxByte t (Some 0xC3) # map (RxByte 500) outs))
       \<and> (opcode \<noteq> 0xC3 \<and> opcode \<noteq> 0xC2 \<longrightarrow>
            fst (receiveKmm st t) = None
          \<and> (\<exists>outs. length outs \<le> 10
                \<and> wire_log (hal (snd (receiveKmm st t)))
                      = wire_log (hal st) @ RxByte t (Some opcode) # map (RxByte 100) outs))"
  using receiveKmm_C3 [OF assms(1,2), of rest t] receiveKmm_other [OF assms, of t] assms(3)
  by blast

text \<open>A \<open>0xC3\<close> followed by two bytes and a timeout, and a \<open>0x55\<close>.\<close>

theorem receiveKmm_unexpected_opcode_witness:
  "fst (receiveKmm (fresh_kfd [Some 0xC3, Some 0x01, Some 0x80, None, Some 0x05]) 10000)
     = Some [0xC3, 0x01, 0x80]
   \<and> fst (receiveKmm (fresh_kfd [Some 0x55, Some 0x01]) 10000) = None"
proof -
  have i: "initialized (fresh_kfd s)" "hal_initialized (hal (fresh_kfd s))" for s
    by (simp_all add: fresh_kfd_def)
  have "fst (receiveKmm (fresh_kfd [Some 0xC3, Some 0x01, Some 0x80, None, Some 0x05]) 10000)
     = Some [0xC3, 0x01, 0x80]"
    using receiveKmm_unexpected_opcode [OF i, of _ "0xC3" "[Some 0x01, Some 0x80, None, Some 0x05]" 10000]
    by (simp add: fresh_kfd_def)
  moreover have "fst (receiveKmm (fresh_kfd [Some 0x55, Some 0x01]) 10000) = None"
    using receiveKmm_unexpected_opcode [OF i, of _ "0x55" "[Some 0x01]" 10000]
    by (simp add: fresh_kfd_def)
  ultimately show ?thesis by simp
qed

lemma read_more_10:
  "read_more 10 h = read_more (Suc (Suc (Suc (Suc (Suc (Suc (Suc (Suc (Suc (Suc 0)))))))))) h"
  by (simp add: numeral_eq_Suc)

text \<open>
  C9, as the claim states it, fails twice. After \<open>0xC3\<close> the operation reports success.
  After \<open>0x55\<close> it takes ten of the twelve bytes that follow, each with a timeout of
  100 ms, and hands back no buffer.
\<close>

theorem receiveKmm_unexpected_opcode_counterexample:
  "fst (receiveKmm (fresh_kfd [Some 0xC3, Some 0x01, Some 0x80]) 10000) = Some [0xC3, 0x01, 0x80]
   \<and> receiveKmm (fresh_kfd (map Some [0x55, 1, 2, 3, 4, 5, 6, 7, 8, 9, 10, 11, 12])) 10000 =
       (None,
        after_events (fresh_kfd (map Some [0x55, 1, 2, 3, 4, 5, 6, 7, 8, 9, 10, 11, 12]))
          (map Some [11, 12])
          (RxByte 10000 (Some 0x55) # map (\<lambda>b. RxByte 100 (Some b)) [1, 2, 3, 4, 5, 6, 7, 8, 9, 10]))"
proof -
  have i: "initialized (fresh_kfd s)" "hal_initialized (hal (fresh_kfd s))" for s
    by (simp_all add: fresh_kfd_def)
  have a: "fst (receiveKmm (fresh_kfd [Some 0xC3, Some 0x01, Some 0x80]) 10000) = Some [0xC3, 0x01, 0x80]"
    using receiveKmm_C3(1) [OF i, of _ "[Some 0x01, Some 0x80]" 10000]
    by (simp add: fresh_kfd_def)
  have b: "receiveKmm (fresh_kfd (map Some [0x55, 1, 2, 3, 4, 5, 6, 7, 8, 9, 10, 11, 12])) 10000 =
       (None,
        after_events (fresh_kfd (map Some [0x55, 1, 2, 3, 4, 5, 6, 7, 8, 9, 10, 11, 12]))
          (map Some [11, 12])
          (RxByte 10000 (Some 0x55) # map (\<lambda>b. RxByte 100 (Some b)) [1, 2, 3, 4, 5, 6, 7, 8, 9, 10]))"
    by (simp add: receiveKmm_def fresh_kfd_def after_events_def receiveByte_def TWI_KMM_def read_more_10)
  from a b show ?thesis by simp
qed

section \<open>The log only grows\<close>

lemma log_receiveByte:
  "receiveByte h t = (r, h') \<Longrightarrow> x \<in> set (wire_log h) \<Longrightarrow> x \<in> set (wire_log h')"
  by (auto simp add: receiveByte_def split: if_splits list.splits)

lemma log_sendByte: "x \<in> set (wire_log h) \<Longrightarrow> x \<in> set (wire_log (sendByte h b))"
  by (simp add: sendByte_def)

lemma log_read_more: "x \<in> set (wire_log h) \<Longrightarrow> x \<in> set (wire_log (read_more n h))"
proof (induction n arbitrary: h)
  case 0
  then show ?case by simp
next
  case (Suc n)
  obtain r h' where rb: "receiveByte h 100 = (r, h')"
    by (cases "receiveByte h 100")
  from log_receiveByte [OF rb Suc.prems] have "x \<in> set (wire_log h')" .
  with Suc.IH [of h'] rb show ?case
    by (cases r) simp_all
qed

lemma log_recv_body:
  "recv_body n h t acc = (res, h'') \<Longrightarrow> x \<in> set (wire_log h) \<Longrightarrow> x \<in> set (wire_log h'')"
proof (induction n arbitrary: h acc)
  case 0
  then show ?case by simp
next
  case (Suc n)
  obtain r h' where rb: "receiveByte h t = (r, h')"
    by (cases "receiveByte h t")
  from log_receiveByte [OF rb Suc.prems(2)] have x: "x \<in> set (wire_log h')" .
  show ?case
  proof (cases r)
    case None
    with Suc.prems(1) rb x show ?thesis by simp
  next
    case (Some b)
    with Suc.prems(1) rb have "recv_body n h' t (acc @ [b]) = (res, h'')" by simp
    from Suc.IH [OF this x] show ?thesis .
  qed
qed

lemma log_dump_raw:
  "dump_raw h raw = (res, h'') \<Longrightarrow> x \<in> set (wire_log h) \<Longrightarrow> x \<in> set (wire_log h'')"
proof (induction h raw rule: dump_raw.induct)
  case (1 h raw)
  obtain r h' where rb: "receiveByte h 500 = (r, h')"
    by (cases "receiveByte h 500")
  from log_receiveByte [OF rb "1.prems"(2)] have x: "x \<in> set (wire_log h')" .
  show ?case
  proof (cases r)
    case None
    with "1.prems"(1) rb x show ?thesis by (subst (asm) dump_raw.simps) simp
  next
    case (Some b)
    show ?thesis
    proof (cases "length (raw @ [b]) > 100")
      case True
      with "1.prems"(1) rb x Some show ?thesis by (subst (asm) dump_raw.simps) simp
    next
      case False
      with "1.prems"(1) rb Some have "dump_raw h' (raw @ [b]) = (res, h'')"
        by (subst (asm) dump_raw.simps) simp
      from "1.IH" [OF rb [symmetric] Some False this x] show ?thesis .
    qed
  qed
qed

lemma log_receiveKmm:
  assumes x: "x \<in> set (wire_log (hal st))"
  shows "x \<in> set (wire_log (hal (snd (receiveKmm st t))))"
proof (cases "initialized st")
  case False
  with x show ?thesis by (simp add: receiveKmm_def)
next
  case True
  obtain r1 h1 where rb1: "receiveByte (hal st) t = (r1, h1)"
    by (cases "receiveByte (hal st) t")
  from log_receiveByte [OF rb1 x] have x1: "x \<in> set (wire_log h1)" .
  show ?thesis
  proof (cases r1)
    case None
    with True rb1 x1 show ?thesis by (simp add: receiveKmm_def)
  next
    case (Some opcode)
    consider (c3) "opcode = 0xC3" | (other) "opcode \<noteq> 0xC3" "opcode \<noteq> TWI_KMM"
      | (kmm) "opcode \<noteq> 0xC3" "opcode = TWI_KMM"
      by blast
    then show ?thesis
    proof cases
      case c3
      obtain raw h2 where d: "dump_raw h1 [opcode] = (raw, h2)"
        by (cases "dump_raw h1 [opcode]")
      from log_dump_raw [OF d x1] have "x \<in> set (wire_log h2)" .
      with True rb1 Some c3 d show ?thesis by (simp add: receiveKmm_def)
    next
      case other
      from log_read_more [OF x1] have "x \<in> set (wire_log (read_more 10 h1))" .
      with True rb1 Some other x1 show ?thesis by (simp add: receiveKmm_def)
    next
      case kmm
      obtain r2 h2 where rb2: "receiveByte h1 t = (r2, h2)"
        by (cases "receiveByte h1 t")
      from log_receiveByte [OF rb2 x1] have x2: "x \<in> set (wire_log h2)" .
      show ?thesis
      proof (cases r2)
        case None
        with True rb1 Some kmm rb2 x2 show ?thesis by (simp add: receiveKmm_def)
      next
        case lenHi: (Some lenHi)
        obtain r3 h3 where rb3: "receiveByte h2 t = (r3, h3)"
          by (cases "receiveByte h2 t")
        from log_receiveByte [OF rb3 x2] have x3: "x \<in> set (wire_log h3)" .
        show ?thesis
        proof (cases r3)
          case None
          with True rb1 Some kmm rb2 lenHi rb3 x3 show ?thesis by (simp add: receiveKmm_def)
        next
          case lenLo: (Some lenLo)
          let ?len = "unat (push_bit 8 (ucast lenHi :: u16) OR ucast lenLo)"
          obtain rb hb where b: "recv_body ?len h3 t [] = (rb, hb)"
            by (cases "recv_body ?len h3 t []")
          from log_recv_body [OF b x3] have xb: "x \<in> set (wire_log hb)" .
          from log_read_more [OF x3] have xm: "x \<in> set (wire_log (read_more 20 h3))" .
          show ?thesis
            using True rb1 Some kmm rb2 lenHi rb3 lenLo b xb xm
            by (cases rb) (simp_all add: receiveKmm_def Let_def)
        qed
      qed
    qed
  qed
qed

lemma log_endSession:
  assumes x: "x \<in> set (wire_log (hal st))"
  shows "x \<in> set (wire_log (hal (endSession st)))"
proof (cases "initialized st")
  case False
  with x show ?thesis by (simp add: endSession_def)
next
  case True
  let ?h0 = "sendByte (hal st) TWI_TRANSFER_DONE"
  obtain r h where rb: "receiveByte ?h0 1000 = (r, h)"
    by (cases "receiveByte ?h0 1000")
  from log_receiveByte [OF rb log_sendByte [OF x]] have x1: "x \<in> set (wire_log h)" .
  obtain r' h' where rb': "receiveByte (sendByte h TWI_DISCONNECT) 1000 = (r', h')"
    by (cases "receiveByte (sendByte h TWI_DISCONNECT) 1000")
  from log_receiveByte [OF rb' log_sendByte [OF x1]] have x2: "x \<in> set (wire_log h')" .
  show ?thesis
    using True rb rb' x1 x2 by (cases r) (simp_all add: endSession_def)
qed

section \<open>Properties of the dispatcher\<close>

lemma take1_iff: "take (Suc 0) xs = [b] \<longleftrightarrow> xs \<noteq> [] \<and> xs ! 0 = b"
  by (cases xs) auto

lemma buildKmmFrame_wrapper_nonempty: "buildKmmFrame_wrapper body \<noteq> []"
  by (simp add: buildKmmFrame_wrapper_def buildKmmFrame_layout)

lemma receiveKmm_frame_state:
  assumes "initialized st" "hal_initialized (hal st)"
    and script: "rx_script (hal st) = map Some ([0xC2, lenHi, lenLo] @ body) @ rest"
    and len: "be16 lenHi lenLo = length body" "6 \<le> length body" "length body \<le> 512"
  shows "receiveKmm st t =
           (Some (if length body > 6 then take (length body - 6) (drop 4 body) else body),
            after_events st rest (map (\<lambda>b. RxByte t (Some b)) ([0xC2, lenHi, lenLo] @ body)))"
proof -
  let ?h3 = "(hal st)\<lparr>rx_script := map Some body @ rest,
      wire_log := wire_log (hal st) @ [RxByte t (Some 0xC2), RxByte t (Some lenHi), RxByte t (Some lenLo)]\<rparr>"
  have body: "recv_body (length body) ?h3 t [] =
     (Some ([] @ body),
      ?h3\<lparr>rx_script := rest, wire_log := wire_log ?h3 @ map (\<lambda>b. RxByte t (Some b)) body\<rparr>)"
    using assms(2) by (intro recv_body_script) simp_all
  show ?thesis
    using assms(1,2) script len body
    by (simp add: receiveKmm_def receiveByte_def TWI_KMM_def unat_len16 Let_def after_events_def)
qed

lemma keyload_after_exchange:
  assumes "initialized st" "\<not> operationInProgress st"
    and "beginSession (st\<lparr>operationInProgress := True, abortRequested := False\<rparr>) = (True, dt, st1)"
    and "receiveKmm (st1\<lparr>hal := sendBytesFast (hal st1) (buildKmmFrame_wrapper (buildModifyKeyCommand k))\<rparr>) 10000
           = (Some response, st3)"
  shows "keyload st k =
     (if response = [] then mkResult False ''Empty response''
      else if response ! 0 = 0x07 then mkResult True ''Key loaded successfully''
      else if response ! 0 = 0x08 then
        (mkResult False (''NAK received: status 0x'' @ hex02 (if length response > 2 then response ! 2 else 0x0A)))
          \<lparr>status := (if length response > 2 then response ! 2 else 0x0A)\<rparr>
      else mkResult False ''Unexpected response'',
      (endSession st3)\<lparr>operationInProgress := False\<rparr>)"
  using assms
  by (simp add: keyload_def Let_def MSG_REKEY_ACK_def MSG_NEGATIVE_ACK_def STATUS_INVALID_MN_def)

lemma keyload_no_exchange:
  assumes "initialized st" "\<not> operationInProgress st"
    and "beginSession (st\<lparr>operationInProgress := True, abortRequested := False\<rparr>) = (ok, dt, st1)"
    and "\<not> ok \<or> fst (receiveKmm (st1\<lparr>hal := sendBytesFast (hal st1) (buildKmmFrame_wrapper (buildModifyKeyCommand k))\<rparr>) 10000) = None"
  shows "\<not> success (fst (keyload st k))"
  using assms
  by (cases ok) (auto simp add: keyload_def Let_def mkResult_def split: prod.splits option.splits)

text \<open>
  C5, as the code has it. On an initialised protocol with no operation in progress,
  \<open>keyload\<close> returns success exactly when the handshake succeeds, \<open>receiveKmm\<close>
  returns a KMM, and the first byte of that KMM is \<open>0x07\<close>. When the first byte is
  \<open>0x08\<close> the result is a failure whose status is the byte at offset 2 of the KMM if
  the KMM has more than two bytes, and \<open>STATUS_INVALID_MN\<close> (\<open>0x0A\<close>) if it has not.
\<close>

theorem keyload_classification:
  assumes "initialized st" "\<not> operationInProgress st"
  shows "(success (fst (keyload st k)) \<longleftrightarrow>
           (\<exists>dt st1 response st3.
              beginSession (st\<lparr>operationInProgress := True, abortRequested := False\<rparr>) = (True, dt, st1)
            \<and> receiveKmm (st1\<lparr>hal := sendBytesFast (hal st1)
                              (buildKmmFrame_wrapper (buildModifyKeyCommand k))\<rparr>) 10000
                = (Some response, st3)
            \<and> take 1 response = [0x07]))
       \<and> (\<forall>dt st1 response st3.
              beginSession (st\<lparr>operationInProgress := True, abortRequested := False\<rparr>) = (True, dt, st1)
            \<and> receiveKmm (st1\<lparr>hal := sendBytesFast (hal st1)
                              (buildKmmFrame_wrapper (buildModifyKeyCommand k))\<rparr>) 10000
                = (Some response, st3)
            \<and> take 1 response = [0x08]
            \<longrightarrow> \<not> success (fst (keyload st k))
                \<and> status (fst (keyload st k)) = (if 2 < length response then response ! 2 else 0x0A))"
proof -
  let ?pre = "st\<lparr>operationInProgress := True, abortRequested := False\<rparr>"
  let ?sent = "\<lambda>st1. st1\<lparr>hal := sendBytesFast (hal st1) (buildKmmFrame_wrapper (buildModifyKeyCommand k))\<rparr>"
  obtain ok dt st1 where b: "beginSession ?pre = (ok, dt, st1)"
    by (cases "beginSession ?pre")
  obtain r st3 where rc: "receiveKmm (?sent st1) 10000 = (r, st3)"
    by (cases "receiveKmm (?sent st1) 10000")
  show ?thesis
  proof (cases "ok \<and> r \<noteq> None")
    case False
    then have "\<not> ok \<or> fst (receiveKmm (?sent st1) 10000) = None"
      using rc by auto
    from keyload_no_exchange [OF assms b this] False b rc show ?thesis
      by auto
  next
    case True
    then obtain response where r: "r = Some response" by auto
    from True b have b': "beginSession ?pre = (True, dt, st1)" by simp
    from rc r have rc': "receiveKmm (?sent st1) 10000 = (Some response, st3)" by simp
    show ?thesis
      using b' rc' keyload_after_exchange [OF assms b' rc']
      by (auto simp add: take1_iff mkResult_def)
  qed
qed


lemma hal_post_ready_delay:
  "hal_initialized (hal (post_ready_delay st)) = hal_initialized (hal st)"
  "rx_script (hal (post_ready_delay st)) = rx_script (hal st)"
  "initialized (post_ready_delay st) = initialized st"
  by (simp_all add: post_ready_delay_def)

lemma beginSession_keeps_initialized:
  assumes "initialized st" "hal_initialized (hal st)"
    and "beginSession st = (ok, dt, st1)"
  shows "initialized st1 \<and> hal_initialized (hal st1)"
  using assms(3) unfolding beginSession_unrolled [OF assms(1,2)] Let_def
  using assms(1,2)
  by (auto simp add: hal_post_ready_delay after_events_def split: if_splits)

lemma keyload_run:
  assumes "initialized st" "hal_initialized (hal st)"
    and script: "rx_script (hal st) = Some 0xD0 # map Some ([0xC2, lenHi, lenLo] @ body) @ rest"
    and len: "be16 lenHi lenLo = length body" "6 \<le> length body" "length body \<le> 512"
  shows "\<exists>st1 st3.
           beginSession (st\<lparr>operationInProgress := True, abortRequested := False\<rparr>)
             = (True, Some DEVICE_MR, st1)
         \<and> receiveKmm (st1\<lparr>hal := sendBytesFast (hal st1)
                           (buildKmmFrame_wrapper (buildModifyKeyCommand k))\<rparr>) 10000
             = (Some (if length body > 6 then take (length body - 6) (drop 4 body) else body), st3)"
proof -
  let ?pre = "st\<lparr>operationInProgress := True, abortRequested := False\<rparr>"
  let ?rs = "map Some ([0xC2, lenHi, lenLo] @ body) @ rest"
  let ?st1 = "post_ready_delay (after_events ?pre ?rs (attempt_events (Some 0xD0)))"
  let ?st2 = "?st1\<lparr>hal := sendBytesFast (hal ?st1) (buildKmmFrame_wrapper (buildModifyKeyCommand k))\<rparr>"
  have pre: "initialized ?pre" "hal_initialized (hal ?pre)"
    using assms(1,2) by simp_all
  have b: "beginSession ?pre = (True, Some DEVICE_MR, ?st1)"
    using script
    by (simp add: beginSession_unrolled [OF pre] Let_def next_rx_def ready_response_def peer_mode_def)
  have st2: "initialized ?st2" "hal_initialized (hal ?st2)" "rx_script (hal ?st2) = ?rs"
    using assms(1,2)
    by (simp_all add: hal_post_ready_delay after_events_def sendBytesFast_def)
  from receiveKmm_frame_state [OF st2 len, of 10000] b show ?thesis
    by blast
qed

lemma keyload_run_result:
  assumes "initialized st" "hal_initialized (hal st)" "\<not> operationInProgress st"
    and script: "rx_script (hal st) = Some 0xD0 # map Some ([0xC2, lenHi, lenLo] @ body) @ rest"
    and len: "be16 lenHi lenLo = length body" "6 \<le> length body" "length body \<le> 512"
    and resp: "response = (if length body > 6 then take (length body - 6) (drop 4 body) else body)"
  shows "fst (keyload st k) =
     (if response = [] then mkResult False ''Empty response''
      else if response ! 0 = 0x07 then mkResult True ''Key loaded successfully''
      else if response ! 0 = 0x08 then
        (mkResult False (''NAK received: status 0x'' @ hex02 (if length response > 2 then response ! 2 else 0x0A)))
          \<lparr>status := (if length response > 2 then response ! 2 else 0x0A)\<rparr>
      else mkResult False ''Unexpected response'')"
proof -
  obtain st1 st3 where
    "beginSession (st\<lparr>operationInProgress := True, abortRequested := False\<rparr>)
             = (True, Some DEVICE_MR, st1)"
    "receiveKmm (st1\<lparr>hal := sendBytesFast (hal st1)
                           (buildKmmFrame_wrapper (buildModifyKeyCommand k))\<rparr>) 10000
             = (Some response, st3)"
    using keyload_run [OF assms(1,2) script len, of k] resp by auto
  from keyload_after_exchange [OF assms(1,3) this] show ?thesis
    by simp
qed

lemma fresh_kfd_simps:
  "initialized (fresh_kfd s)" "hal_initialized (hal (fresh_kfd s))"
  "\<not> operationInProgress (fresh_kfd s)" "rx_script (hal (fresh_kfd s)) = s"
  "wire_log (hal (fresh_kfd s)) = []"
  by (simp_all add: fresh_kfd_def)

text \<open>After a ready response \<open>0xD0\<close>: the negative acknowledgment \<open>08 00 06\<close>,
  and the rekey acknowledgment \<open>07 00 04\<close>.\<close>

theorem keyload_classification_witness:
  "\<not> success (fst (keyload (fresh_kfd (map Some
        [0xD0, 0xC2, 0x00, 0x09, 0x00, 0xFF, 0xFF, 0xFF, 0x08, 0x00, 0x06, 0xD9, 0x1D, 0xC1, 0x90])) test_key))
   \<and> status (fst (keyload (fresh_kfd (map Some
        [0xD0, 0xC2, 0x00, 0x09, 0x00, 0xFF, 0xFF, 0xFF, 0x08, 0x00, 0x06, 0xD9, 0x1D, 0xC1, 0x90])) test_key)) = 0x06
   \<and> success (fst (keyload (fresh_kfd (map Some
        [0xD0, 0xC2, 0x00, 0x09, 0x00, 0xFF, 0xFF, 0xFF, 0x07, 0x00, 0x04, 0x0C, 0x74, 0xC1, 0x90])) test_key))"
proof -
  let ?nak = "fresh_kfd (map Some
        [0xD0, 0xC2, 0x00, 0x09, 0x00, 0xFF, 0xFF, 0xFF, 0x08, 0x00, 0x06, 0xD9, 0x1D, 0xC1, 0x90])"
  let ?ack = "fresh_kfd (map Some
        [0xD0, 0xC2, 0x00, 0x09, 0x00, 0xFF, 0xFF, 0xFF, 0x07, 0x00, 0x04, 0x0C, 0x74, 0xC1, 0x90])"
  obtain st1 st3 where run:
    "beginSession (?nak\<lparr>operationInProgress := True, abortRequested := False\<rparr>)
             = (True, Some DEVICE_MR, st1)"
    "receiveKmm (st1\<lparr>hal := sendBytesFast (hal st1)
                           (buildKmmFrame_wrapper (buildModifyKeyCommand test_key))\<rparr>) 10000
             = (Some [0x08, 0x00, 0x06], st3)"
    using keyload_run [OF fresh_kfd_simps(1,2), of _ "0x00" "0x09"
        "[0x00, 0xFF, 0xFF, 0xFF, 0x08, 0x00, 0x06, 0xD9, 0x1D]" "map Some [0xC1, 0x90]" test_key]
    by (auto simp add: fresh_kfd_simps be16_def)
  from keyload_classification [OF fresh_kfd_simps(1,3),
      of "map Some [0xD0, 0xC2, 0x00, 0x09, 0x00, 0xFF, 0xFF, 0xFF, 0x08, 0x00, 0x06, 0xD9, 0x1D, 0xC1, 0x90]"
         test_key, THEN conjunct2, rule_format, of "Some DEVICE_MR" st1 "[0x08, 0x00, 0x06]" st3] run
  have nak: "\<not> success (fst (keyload ?nak test_key)) \<and> status (fst (keyload ?nak test_key)) = 0x06"
    by simp
  obtain st1' st3' where run':
    "beginSession (?ack\<lparr>operationInProgress := True, abortRequested := False\<rparr>)
             = (True, Some DEVICE_MR, st1')"
    "receiveKmm (st1'\<lparr>hal := sendBytesFast (hal st1')
                           (buildKmmFrame_wrapper (buildModifyKeyCommand test_key))\<rparr>) 10000
             = (Some [0x07, 0x00, 0x04], st3')"
    using keyload_run [OF fresh_kfd_simps(1,2), of _ "0x00" "0x09"
        "[0x00, 0xFF, 0xFF, 0xFF, 0x07, 0x00, 0x04, 0x0C, 0x74]" "map Some [0xC1, 0x90]" test_key]
    by (auto simp add: fresh_kfd_simps be16_def)
  have "take 1 [0x07, 0x00, 0x04 :: u8] = [0x07]"
    by simp
  with run' have "\<exists>dt st1 response st3.
        beginSession (?ack\<lparr>operationInProgress := True, abortRequested := False\<rparr>) = (True, dt, st1)
      \<and> receiveKmm (st1\<lparr>hal := sendBytesFast (hal st1)
                        (buildKmmFrame_wrapper (buildModifyKeyCommand test_key))\<rparr>) 10000
          = (Some response, st3)
      \<and> take 1 response = [0x07]"
    by blast
  with keyload_classification [OF fresh_kfd_simps(1,3),
      of "map Some [0xD0, 0xC2, 0x00, 0x09, 0x00, 0xFF, 0xFF, 0xFF, 0x07, 0x00, 0x04, 0x0C, 0x74, 0xC1, 0x90]"
         test_key, THEN conjunct1]
  have "success (fst (keyload ?ack test_key))"
    by blast
  with nak show ?thesis by simp
qed

text \<open>
  C5, as the claim states it, fails for a negative acknowledgment whose inner KMM is the
  single byte \<open>0x08\<close>: there is no byte at offset 2, no byte of the frame is \<open>0x0A\<close>,
  and the status returned is \<open>0x0A\<close>.
\<close>

theorem keyload_short_nak_counterexample:
  "innerKmm [0xC2, 0x00, 0x07, 0x00, 0xFF, 0xFF, 0xFF, 0x08, 0x21, 0x40] = [0x08]
   \<and> \<not> success (fst (keyload (fresh_kfd (map Some
        [0xD0, 0xC2, 0x00, 0x07, 0x00, 0xFF, 0xFF, 0xFF, 0x08, 0x21, 0x40, 0xC1, 0x90])) test_key))
   \<and> status (fst (keyload (fresh_kfd (map Some
        [0xD0, 0xC2, 0x00, 0x07, 0x00, 0xFF, 0xFF, 0xFF, 0x08, 0x21, 0x40, 0xC1, 0x90])) test_key)) = 0x0A
   \<and> 0x0A \<notin> set [0xC2, 0x00, 0x07, 0x00, 0xFF, 0xFF, 0xFF, 0x08, 0x21, 0x40 :: u8]"
proof -
  have "fst (keyload (fresh_kfd (map Some
        [0xD0, 0xC2, 0x00, 0x07, 0x00, 0xFF, 0xFF, 0xFF, 0x08, 0x21, 0x40, 0xC1, 0x90])) test_key)
      = (mkResult False (''NAK received: status 0x'' @ hex02 0x0A))\<lparr>status := 0x0A\<rparr>"
    using keyload_run_result [OF fresh_kfd_simps(1,2,3), of _ "0x00" "0x07"
        "[0x00, 0xFF, 0xFF, 0xFF, 0x08, 0x21, 0x40]" "map Some [0xC1, 0x90]" "[0x08]" test_key]
    by (simp add: fresh_kfd_simps be16_def)
  then show ?thesis
    by (simp add: mkResult_def innerKmm_def)
qed

lemma keyload_frame_in_log:
  assumes "initialized st" "hal_initialized (hal st)" "\<not> operationInProgress st"
    and ok: "fst (beginSession (st\<lparr>operationInProgress := True, abortRequested := False\<rparr>))"
  shows "TxBytesFast (buildKmmFrame (buildModifyKeyCommand k) MSG_MODIFY_KEY_CMD 0xC0)
           \<in> set (wire_log (hal (snd (keyload st k))))"
proof -
  let ?pre = "st\<lparr>operationInProgress := True, abortRequested := False\<rparr>"
  let ?frame = "buildKmmFrame_wrapper (buildModifyKeyCommand k)"
  obtain dt st1 where b: "beginSession ?pre = (True, dt, st1)"
    using ok by (cases "beginSession ?pre") auto
  have pre: "initialized ?pre" "hal_initialized (hal ?pre)"
    using assms(1,2) by simp_all
  from beginSession_keeps_initialized [OF pre b] have st1: "hal_initialized (hal st1)" by simp
  let ?st2 = "st1\<lparr>hal := sendBytesFast (hal st1) ?frame\<rparr>"
  have x2: "TxBytesFast ?frame \<in> set (wire_log (hal ?st2))"
    using st1 by (simp add: sendBytesFast_def buildKmmFrame_wrapper_nonempty)
  obtain r st3 where rc: "receiveKmm ?st2 10000 = (r, st3)"
    by (cases "receiveKmm ?st2 10000")
  from log_receiveKmm [OF x2, of 10000] rc have "TxBytesFast ?frame \<in> set (wire_log (hal st3))"
    by simp
  from log_endSession [OF this]
  have x4: "TxBytesFast ?frame \<in> set (wire_log (hal ((endSession st3)\<lparr>operationInProgress := False\<rparr>)))"
    by simp
  have "hal (snd (keyload st k)) = hal ((endSession st3)\<lparr>operationInProgress := False\<rparr>)"
    using assms(1,3) b rc by (cases r) (simp_all add: keyload_def Let_def)
  with x4 show ?thesis
    by (simp add: buildKmmFrame_wrapper_def)
qed

lemma keyload_messages:
  assumes "initialized st" "\<not> operationInProgress st"
    and ok: "fst (beginSession (st\<lparr>operationInProgress := True, abortRequested := False\<rparr>))"
  shows "message (fst (keyload st k)) \<in>
           {''No response from radio after keyload'', ''Empty response'',
            ''Key loaded successfully'', ''Unexpected response''}
       \<or> (\<exists>s. message (fst (keyload st k)) = ''NAK received: status 0x'' @ hex02 s)"
proof -
  let ?pre = "st\<lparr>operationInProgress := True, abortRequested := False\<rparr>"
  obtain dt st1 where b: "beginSession ?pre = (True, dt, st1)"
    using ok by (cases "beginSession ?pre") auto
  let ?st2 = "st1\<lparr>hal := sendBytesFast (hal st1) (buildKmmFrame_wrapper (buildModifyKeyCommand k))\<rparr>"
  obtain r st3 where rc: "receiveKmm ?st2 10000 = (r, st3)"
    by (cases "receiveKmm ?st2 10000")
  show ?thesis
  proof (cases r)
    case None
    with assms(1,2) b rc show ?thesis
      by (simp add: keyload_def Let_def mkResult_def)
  next
    case (Some response)
    with rc have rc': "receiveKmm ?st2 10000 = (Some response, st3)" by simp
    have nak: "\<exists>s. ''NAK received: status 0x'' @ hex02 x = ''NAK received: status 0x'' @ hex02 s" for x
      by blast
    show ?thesis
      unfolding keyload_after_exchange [OF assms(1,2) b rc']
      using nak by (simp add: mkResult_def)
  qed
qed

text \<open>
  C8, as the code has it. \<open>keyload\<close> does not look at the length of the key: for every
  key item, once the handshake has succeeded, the ModifyKey frame built from it is sent, and
  the result is one of the results of the response classification, none of which is about
  the key length.
\<close>

theorem keyload_no_length_check:
  assumes "initialized st" "hal_initialized (hal st)" "\<not> operationInProgress st"
    and "fst (beginSession (st\<lparr>operationInProgress := True, abortRequested := False\<rparr>))"
  shows "TxBytesFast (buildKmmFrame (buildModifyKeyCommand k) MSG_MODIFY_KEY_CMD 0xC0)
           \<in> set (wire_log (hal (snd (keyload st k))))
       \<and> (message (fst (keyload st k)) \<in>
             {''No response from radio after keyload'', ''Empty response'',
              ''Key loaded successfully'', ''Unexpected response''}
          \<or> (\<exists>s. message (fst (keyload st k)) = ''NAK received: status 0x'' @ hex02 s))"
  using keyload_frame_in_log [OF assms] keyload_messages [OF assms(1,3,4)]
  by blast

lemma short_key_invalid:
  "getKeyLength (algorithmId short_key) = 32" "length (key short_key) = 3"
  "\<not> validateKey (key short_key) (algorithmId short_key)"
  by (simp_all add: short_key_def test_key_def validateKey_def getKeyLength_def p25_consts)

lemma fresh_session_ok:
  "fst (beginSession ((fresh_kfd (Some 0xD0 # rs))\<lparr>operationInProgress := True, abortRequested := False\<rparr>))"
proof -
  let ?pre = "(fresh_kfd (Some 0xD0 # rs))\<lparr>operationInProgress := True, abortRequested := False\<rparr>"
  have pre: "initialized ?pre" "hal_initialized (hal ?pre)"
    by (simp_all add: fresh_kfd_simps)
  show ?thesis
    by (simp add: beginSession_unrolled [OF pre] Let_def next_rx_def ready_response_def fresh_kfd_simps)
qed

text \<open>Three bytes of key under AES-256, a peer that answers \<open>0xD0\<close> and nothing
  more.\<close>

theorem keyload_no_length_check_witness:
  "\<not> validateKey (key short_key) (algorithmId short_key)
   \<and> TxBytesFast (buildKmmFrame (buildModifyKeyCommand short_key) MSG_MODIFY_KEY_CMD 0xC0)
       \<in> set (wire_log (hal (snd (keyload (fresh_kfd [Some 0xD0]) short_key))))"
  using keyload_no_length_check [OF fresh_kfd_simps(1,2,3) fresh_session_ok, of short_key "[]"]
    short_key_invalid(3)
  by simp

text \<open>
  C8, as the claim states it, fails for three bytes of key under AES-256 (expected length
  32, \<open>validateKey\<close> false): the frame goes out, and when the peer acknowledges,
  \<open>keyload\<close> reports success.
\<close>

theorem keyload_invalid_length_counterexample:
  "getKeyLength (algorithmId short_key) = 32 \<and> length (key short_key) = 3
   \<and> \<not> validateKey (key short_key) (algorithmId short_key)
   \<and> fst (keyload (fresh_kfd (map Some
        [0xD0, 0xC2, 0x00, 0x09, 0x00, 0xFF, 0xFF, 0xFF, 0x07, 0x00, 0x04, 0x0C, 0x74, 0xC1, 0x90])) short_key)
       = mkResult True ''Key loaded successfully''
   \<and> TxBytesFast (buildKmmFrame (buildModifyKeyCommand short_key) MSG_MODIFY_KEY_CMD 0xC0)
       \<in> set (wire_log (hal (snd (keyload (fresh_kfd (map Some
        [0xD0, 0xC2, 0x00, 0x09, 0x00, 0xFF, 0xFF, 0xFF, 0x07, 0x00, 0x04, 0x0C, 0x74, 0xC1, 0x90])) short_key))))"
proof -
  have r: "fst (keyload (fresh_kfd (map Some
        [0xD0, 0xC2, 0x00, 0x09, 0x00, 0xFF, 0xFF, 0xFF, 0x07, 0x00, 0x04, 0x0C, 0x74, 0xC1, 0x90])) short_key)
       = mkResult True ''Key loaded successfully''"
    using keyload_run_result [OF fresh_kfd_simps(1,2,3), of _ "0x00" "0x09"
        "[0x00, 0xFF, 0xFF, 0xFF, 0x07, 0x00, 0x04, 0x0C, 0x74]" "map Some [0xC1, 0x90]" "[0x07, 0x00, 0x04]" short_key]
    by (simp add: fresh_kfd_simps be16_def)
  have f: "TxBytesFast (buildKmmFrame (buildModifyKeyCommand short_key) MSG_MODIFY_KEY_CMD 0xC0)
       \<in> set (wire_log (hal (snd (keyload (fresh_kfd (map Some
        [0xD0, 0xC2, 0x00, 0x09, 0x00, 0xFF, 0xFF, 0xFF, 0x07, 0x00, 0x04, 0x0C, 0x74, 0xC1, 0x90])) short_key))))"
    using keyload_frame_in_log [OF fresh_kfd_simps(1,2,3) fresh_session_ok,
        of short_key "map Some [0xC2, 0x00, 0x09, 0x00, 0xFF, 0xFF, 0xFF, 0x07, 0x00, 0x04, 0x0C, 0x74, 0xC1, 0x90]"]
    by simp
  from r f short_key_invalid show ?thesis by simp
qed


lemma eraseAllKeys_frame_bytes:
  "buildKmmFrame_wrapper buildZeroizeCommand =
     [0xC2, 0x00, 0x11, 0x00, 0xFF, 0xFF, 0xFF, 0x04, 0x00, 0x08, 0xC0,
      0xFF, 0xFF, 0xFF, 0xFF, 0xFF, 0xFF, 0x0A, 0xB9, 0x80]"
  by (simp add: buildKmmFrame_wrapper_def buildZeroizeCommand_def buildKmmFrame_layout
      MSG_ZEROIZE_CMD_def MSG_MODIFY_KEY_CMD_def calculateCrc16_def crc16_step_def crc16Table_def)

text \<open>
  C7. What \<open>eraseAllKeys\<close> puts on the wire for a peer that answers \<open>0xD0\<close> and
  then stays silent: after the handshake, one frame, whose inner KMM has the message id
  \<open>0x04\<close> of ModifyKey, not \<open>0x0A\<close>, the message length 8, and the byte \<open>0x0A\<close>
  as its body.
\<close>

theorem eraseAllKeys_sends_modify_key_id:
  "take 4 (wire_log (hal (snd (eraseAllKeys (fresh_kfd [Some 0xD0]))))) =
     [KeySignature, TxByte 0xC0, RxByte 2000 (Some 0xD0),
      TxBytesFast (buildKmmFrame_wrapper buildZeroizeCommand)]
   \<and> wire_log (hal (snd (eraseAllKeys (fresh_kfd [Some 0xD0])))) ! 3 =
       TxBytesFast [0xC2, 0x00, 0x11, 0x00, 0xFF, 0xFF, 0xFF, 0x04, 0x00, 0x08, 0xC0,
                    0xFF, 0xFF, 0xFF, 0xFF, 0xFF, 0xFF, 0x0A, 0xB9, 0x80]
   \<and> buildKmmFrame_wrapper buildZeroizeCommand =
       [0xC2, 0x00, 0x11, 0x00, 0xFF, 0xFF, 0xFF, 0x04, 0x00, 0x08, 0xC0,
        0xFF, 0xFF, 0xFF, 0xFF, 0xFF, 0xFF, 0x0A, 0xB9, 0x80]
   \<and> innerKmm (buildKmmFrame_wrapper buildZeroizeCommand) ! 0 = MSG_MODIFY_KEY_CMD
   \<and> innerKmm (buildKmmFrame_wrapper buildZeroizeCommand) ! 0 \<noteq> MSG_ZEROIZE_CMD
   \<and> be16 (innerKmm (buildKmmFrame_wrapper buildZeroizeCommand) ! 1)
           (innerKmm (buildKmmFrame_wrapper buildZeroizeCommand) ! 2) = 8
   \<and> drop 10 (innerKmm (buildKmmFrame_wrapper buildZeroizeCommand)) = [MSG_ZEROIZE_CMD]"
proof -
  let ?pre = "(fresh_kfd [Some 0xD0])\<lparr>operationInProgress := True\<rparr>"
  have pre: "initialized ?pre" "hal_initialized (hal ?pre)"
    by (simp_all add: fresh_kfd_simps)
  have b: "beginSession ?pre = (True, Some DEVICE_MR, after_events ?pre [] (attempt_events (Some 0xD0)))"
    by (subst beginSession_unrolled [OF pre])
       (simp add: Let_def next_rx_def ready_response_def peer_mode_def fresh_kfd_def
         post_ready_delay_def after_events_def)
  have log: "wire_log (hal (snd (eraseAllKeys (fresh_kfd [Some 0xD0])))) =
     [KeySignature, TxByte 0xC0, RxByte 2000 (Some 0xD0),
      TxBytesFast (buildKmmFrame_wrapper buildZeroizeCommand),
      LineWatch 100, RxByte 10000 None, TxByte 0xC1, RxByte 1000 None]"
    by (simp add: eraseAllKeys_def fresh_kfd_simps b)
       (simp add: sendKmm_def watch_line_def after_events_def sendBytesFast_def
         buildKmmFrame_wrapper_nonempty receiveKmm_def receiveByte_def endSession_def
         sendByte_def attempt_events_def TWI_TRANSFER_DONE_def fresh_kfd_def)
  show ?thesis
    unfolding log unfolding eraseAllKeys_frame_bytes
    by (simp add: innerKmm_def be16_def MSG_MODIFY_KEY_CMD_def MSG_ZEROIZE_CMD_def)
qed

end
